theory Spec2Isabelle
  imports Complex_Main
begin

section \<open>Population-based IPPO training for Overcooked\<close>

text \<open>
  The embedding follows \<^verbatim>\<open>mep_s1_ippo_overcooked_ff.py\<close> function by function. JAX arrays of floats are
  lists of reals (a vector over the actor axis is a \<open>real list\<close>, a matrix a list of
  rows), so rounding, infinities and NaN are not modelled. Counts and shapes of the
  configuration are natural numbers; the iteration counter that \<^verbatim>\<open>jax.jit\<close> traces is a
  32-bit integer, written as an \<open>int\<close> with the wrap-around spelled out. Every Python
  exception the modelled code can raise is a value of \<open>error\<close>. The functions of the source whose names start with an
  underscore lose it (\<open>env_step\<close> is \<^verbatim>\<open>_env_step\<close>); the fields of \<open>Transition\<close> carry
  the suffix \<open>_t\<close>; the variable \<^verbatim>\<open>pi\<close> is \<open>pi'\<close> and \<^verbatim>\<open>_rng\<close> is \<open>rng_sub\<close>; the counter
  \<^verbatim>\<open>update_step\<close> of the runner state is \<open>update_count\<close>.
\<close>

datatype error = ZeroDivisionError | AssertionError | KeyError | ValueError
  | TypeError | UnboundLocalError

subsection \<open>Configuration\<close>

text \<open>
  \<^verbatim>\<open>TrainConfig\<close> with the fields the training code reads (the logging fields are left
  out). \<^verbatim>\<open>__post_init__\<close> sets \<open>num_actors\<close>, \<open>num_updates\<close> and \<open>minibatch_size\<close>; its
  floor divisions raise \<^verbatim>\<open>ZeroDivisionError\<close> on a zero divisor.
\<close>

record TrainConfig =
  checkpoint_freq :: nat
  population_size :: nat
  ent_pop_coeff :: real
  rew_shaping_horizon :: int
  seed :: int
  lr :: real
  anneal_lr :: bool
  num_envs :: nat
  num_steps :: nat
  total_timesteps :: nat
  update_epochs :: nat
  num_minibatches :: nat
  gamma :: real
  gae_lambda :: real
  num_actors :: nat
  num_updates :: nat
  minibatch_size :: nat

definition post_init :: "TrainConfig \<Rightarrow> error + TrainConfig" where
  "post_init self =
     (if num_steps self = 0 \<or> num_envs self = 0 \<or> num_minibatches self = 0
      then Inl ZeroDivisionError
      else Inr (self
        \<lparr> num_actors := 2 * num_envs self,
          num_updates := total_timesteps self div num_steps self div num_envs self,
          minibatch_size := (2 * num_envs self) * num_steps self div num_minibatches self \<rparr>))"

subsection \<open>Data\<close>

datatype agent = agent_0 | agent_1

text \<open>
  \<^verbatim>\<open>PopulationTrainState\<close>: flax's \<^verbatim>\<open>TrainState\<close> (step counter, parameters, optimizer
  state) with the population dictionary, the other indices and the trainee's index.
\<close>

record ('p, 's) PopulationTrainState =
  step :: nat
  params :: 'p
  opt_state :: 's
  population :: "nat \<rightharpoonup> 'p"
  other_agent_idcs :: "nat list"
  curr_agent_idx :: nat

text \<open>One \<^verbatim>\<open>Transition\<close> per timestep; each field is a vector over the actors.\<close>

record ('ob, 'i) Transition =
  done_t :: "bool list"
  action_t :: "nat list"
  value_t :: "real list"
  reward_t :: "real list"
  log_prob_t :: "real list"
  obs_t :: "'ob list"
  info_t :: 'i
  neg_logp_pop_new_t :: "real list"
  orig_reward_t :: "real list"
  shaped_reward_t :: "real list"
  entropy_pop_delta_t :: "real list"
  neg_logp_pop_delta_t :: "real list"

text \<open>
  One entry of the flattened batch that the optimizer shuffles: the leaves of
  \<^verbatim>\<open>(traj_batch, advantages, targets)\<close> that the loss reads, at one (timestep, actor)
  position. \<^verbatim>\<open>tree_map\<close> applies the same reshape and the same permutation to every
  leaf, which is that reshape and permutation on the list of entries.
\<close>

record 'ob cell =
  c_done :: bool
  c_action :: nat
  c_value :: real
  c_reward :: real
  c_log_prob :: real
  c_obs :: 'ob
  c_gae :: real
  c_target :: real

record metric =
  update_step_m :: int
  env_step_m :: int
  neg_logp_pop_new_m :: real
  entropy_pop_delta_m :: real
  neg_logp_pop_delta_m :: real
  orig_reward_m :: real
  shaped_reward_m :: real

text \<open>
  The collaborators the source calls and does not define: JAX's random keys, the
  network (\<^verbatim>\<open>network.init\<close>, \<^verbatim>\<open>network.apply\<close> returning the action probabilities
  \<^verbatim>\<open>pi.probs\<close> of every actor and the value of every actor, \<^verbatim>\<open>pi.sample\<close>), the
  optimizer (\<^verbatim>\<open>tx.init\<close>; the gradient of the loss followed by the optax update at a given
  learning rate) and the vectorised environment. The environment's \<^verbatim>\<open>info\<close> is the
  pair of its \<^verbatim>\<open>shaped_reward\<close> entry and the rest.
\<close>

record ('k, 'p, 's, 'ob, 'e, 'i) collaborators =
  random_PRNGKey :: "int \<Rightarrow> 'k"
  random_split :: "'k \<Rightarrow> 'k \<times> 'k"
  random_split_n :: "'k \<Rightarrow> nat \<Rightarrow> 'k list"
  random_choice :: "'k \<Rightarrow> nat list \<Rightarrow> nat"
  random_permutation :: "'k \<Rightarrow> nat \<Rightarrow> nat list"
  network_init :: "'k \<Rightarrow> 'p"
  network_apply :: "'p \<Rightarrow> 'ob list \<Rightarrow> real list list \<times> real list"
  pi_sample :: "'k \<Rightarrow> real list list \<Rightarrow> nat list"
  tx_init :: "'p \<Rightarrow> 's"
  grad_update :: "real \<Rightarrow> 'p \<Rightarrow> 's \<Rightarrow> 'ob cell list \<Rightarrow> 'p \<times> 's"
  vmap_env_reset :: "'k list \<Rightarrow> (agent \<Rightarrow> 'ob list) \<times> 'e"
  vmap_env_step :: "'k list \<Rightarrow> 'e \<Rightarrow> (agent \<Rightarrow> nat list)
    \<Rightarrow> (agent \<Rightarrow> 'ob list) \<times> 'e \<times> (agent \<Rightarrow> real list) \<times> (agent \<Rightarrow> bool list)
        \<times> ((agent \<Rightarrow> real list) \<times> 'i)"

subsection \<open>Array helpers\<close>

definition vadd :: "real list \<Rightarrow> real list \<Rightarrow> real list" where
  "vadd x y = map2 (+) x y"

definition vsub :: "real list \<Rightarrow> real list \<Rightarrow> real list" where
  "vsub x y = map2 (-) x y"

definition vmul :: "real list \<Rightarrow> real list \<Rightarrow> real list" where
  "vmul x y = map2 (*) x y"

definition smul :: "real \<Rightarrow> real list \<Rightarrow> real list" where
  "smul c x = map ((*) c) x"

text \<open>\<^verbatim>\<open>1 - done\<close> on a vector of flags.\<close>

definition one_minus :: "bool list \<Rightarrow> real list" where
  "one_minus flags = map (\<lambda>d. 1 - of_bool d) flags"

definition mean :: "real list \<Rightarrow> real" where
  "mean xs = sum_list xs / real (length xs)"

text \<open>
  \<^verbatim>\<open>jnp.mean(x, axis=0)\<close> of a stack of matrices with six columns and \<open>rows\<close> rows. On
  an empty stack JAX gives NaN where this gives 0.
\<close>

definition mean_axis0 :: "nat \<Rightarrow> real list list list \<Rightarrow> real list list" where
  "mean_axis0 rows xs =
     map (map (\<lambda>s. s / real (length xs)))
       (foldr (map2 (map2 (+))) xs (replicate rows (replicate 6 0)))"

text \<open>
  \<^verbatim>\<open>jnp.delete(arr, obj, axis=0, assume_unique_indices=True)\<close> with a traced index: the
  index is clipped to the length, and entry \<open>j\<close> of the result is entry \<open>j\<close> of the
  array, or entry \<open>j + 1\<close> from the clipped index on.
\<close>

definition jnp_delete :: "'a list \<Rightarrow> nat \<Rightarrow> 'a list" where
  "jnp_delete arr obj =
     map (\<lambda>j. arr ! (if min obj (length arr) \<le> j then Suc j else j)) [0..<length arr - 1]"

text \<open>
  \<^verbatim>\<open>jnp.take(a, indices)\<close> with no axis: the indices address the flattened array.
  (An index past the end gives NaN in JAX; the sampled actions are below six.)
\<close>

definition jnp_take :: "real list list \<Rightarrow> nat list \<Rightarrow> real list" where
  "jnp_take a indices = map (\<lambda>i. concat a ! i) indices"

text \<open>\<^verbatim>\<open>pi.log_prob(action)\<close> of a categorical distribution given by its probabilities.\<close>

definition pi_log_prob :: "real list list \<Rightarrow> nat list \<Rightarrow> real list" where
  "pi_log_prob probs action = map2 (\<lambda>row a. ln (row ! a)) probs action"

text \<open>
  \<^verbatim>\<open>batchify\<close> stacks the agents' arrays (agent 0's environments first); as called by
  \<^verbatim>\<open>_env_step\<close>, \<^verbatim>\<open>unbatchify\<close> gives agent 0 the first \<open>num_envs\<close> entries and agent 1
  the next \<open>num_envs\<close>.
\<close>

definition batchify :: "(agent \<Rightarrow> 'a list) \<Rightarrow> 'a list" where
  "batchify x = x agent_0 @ x agent_1"

definition unbatchify :: "'a list \<Rightarrow> nat \<Rightarrow> agent \<Rightarrow> 'a list" where
  "unbatchify x n a = (case a of agent_0 \<Rightarrow> take n x | agent_1 \<Rightarrow> take n (drop n x))"

subsection \<open>The diversity scorer's entropy\<close>

text \<open>
  \<^verbatim>\<open>MAX_ENT = -jnp.log(1/6)\<close> and \<^verbatim>\<open>entropy(action_probs)\<close>: the elementwise
  product \<^verbatim>\<open>- action_probs * jnp.log(action_probs)\<close> summed over axis 1, one entropy
  per row (actor).
\<close>

definition MAX_ENT :: real where
  "MAX_ENT = - ln (1 / 6)"

definition entropy :: "real list list \<Rightarrow> real list" where
  "entropy action_probs =
     (let neg_p_logp = map (map (\<lambda>p. - p * ln p)) action_probs
      in map sum_list neg_p_logp)"

subsection \<open>Traced integers\<close>

text \<open>
  The source does not enable 64-bit mode, so an integer that \<^verbatim>\<open>jax.jit\<close> traces (the
  counter \<^verbatim>\<open>update_step\<close> of the runner state and everything computed from it) is an
  int32: every addition and multiplication wraps around. \<open>int32 x\<close> is the
  two's-complement value of \<open>x\<close> in 32 bits. The Python ints \<^verbatim>\<open>num_steps\<close> and
  \<^verbatim>\<open>num_envs\<close> that the counter is multiplied with are taken to fit 32 bits.
\<close>

definition int32 :: "int \<Rightarrow> int" where
  "int32 x = (x + 2147483648) mod 4294967296 - 2147483648"

subsection \<open>Schedules\<close>

text \<open>
  \<^verbatim>\<open>optax.linear_schedule(init_value, end_value, transition_steps)\<close>: a polynomial
  schedule of power one. A non-positive \<open>transition_steps\<close> gives the constant
  \<open>init_value\<close>; otherwise the count is clipped to \<open>[0, transition_steps]\<close>.
\<close>

definition optax_linear_schedule :: "real \<Rightarrow> real \<Rightarrow> int \<Rightarrow> int \<Rightarrow> real" where
  "optax_linear_schedule init_value end_value transition_steps count =
     (if transition_steps \<le> 0 then init_value
      else (let count = min (max count 0) transition_steps;
                frac = 1 - real_of_int count / real_of_int transition_steps
            in (init_value - end_value) * frac + end_value))"

definition rew_shaping_anneal :: "TrainConfig \<Rightarrow> int \<Rightarrow> real" where
  "rew_shaping_anneal config = optax_linear_schedule 1 0 (rew_shaping_horizon config)"

text \<open>\<^verbatim>\<open>linear_schedule(count)\<close> of \<^verbatim>\<open>train\<close>, the learning rate of the optimizer.\<close>

definition linear_schedule :: "TrainConfig \<Rightarrow> nat \<Rightarrow> real" where
  "linear_schedule config count =
     (let frac = 1 - real (count div (num_minibatches config * update_epochs config))
                       / real (num_updates config)
      in lr config * frac)"

subsection \<open>Collecting one timestep\<close>

text \<open>
  The loop \<^verbatim>\<open>for i in range(config.population_size)\<close> of \<^verbatim>\<open>_env_step\<close>. It assigns
  the variables \<^verbatim>\<open>rng\<close>, \<^verbatim>\<open>pi\<close>, \<^verbatim>\<open>value\<close>, \<^verbatim>\<open>action\<close> and \<^verbatim>\<open>log_prob\<close> of the enclosing
  function, so they are part of the loop's state. A missing key of the population
  dictionary raises \<^verbatim>\<open>KeyError\<close>.
\<close>

fun population_loop ::
  "('k, 'p, 's, 'ob, 'e, 'i) collaborators \<Rightarrow> (nat \<rightharpoonup> 'p) \<Rightarrow> 'ob list \<Rightarrow> nat list
    \<Rightarrow> 'k \<times> real list list \<times> real list \<times> nat list \<times> real list
        \<times> nat list list \<times> real list list list
    \<Rightarrow> error + ('k \<times> real list list \<times> real list \<times> nat list \<times> real list
        \<times> nat list list \<times> real list list list)" where
  "population_loop C pop obs_batch [] st = Inr st"
| "population_loop C pop obs_batch (i # rest)
       (rng, pi', value, action, log_prob, actions_np, action_probs_np) =
     (case pop i of
        None \<Rightarrow> Inl KeyError
      | Some member \<Rightarrow>
          (let (rng, rng_sub) = random_split C rng;
               (pi', value) = network_apply C member obs_batch;
               action = pi_sample C rng_sub pi';
               log_prob = pi_log_prob pi' action;
               actions_np = actions_np[i := action];
               action_probs_np = action_probs_np[i := pi']
           in population_loop C pop obs_batch rest
                (rng, pi', value, action, log_prob, actions_np, action_probs_np)))"

text \<open>
  Lines 233 to 250 of \<^verbatim>\<open>_env_step\<close>: the mixes of the population without and with the
  trainee, their entropies, and the negative log-probabilities looked up with \<^verbatim>\<open>jnp.take\<close>.
  The result is \<open>(action_probs_pop_np_new, entropy_pop_delta, neg_logp_pop_new,
  neg_logp_pop_delta)\<close>. (The source deletes the trainee's row of \<^verbatim>\<open>actions_np\<close> too and
  never reads that array again.)
\<close>

definition diversity ::
  "nat \<Rightarrow> nat \<Rightarrow> real list list list \<Rightarrow> real list list \<Rightarrow> nat list
    \<Rightarrow> real list list \<times> real list \<times> real list \<times> real list" where
  "diversity rows curr_idx action_probs_np action_probs_agent0 actions =
     (let action_probs_np = jnp_delete action_probs_np curr_idx;
          action_probs_pop_np = mean_axis0 rows action_probs_np;
          action_probs_np_new = action_probs_np @ [action_probs_agent0];
          action_probs_pop_np_new = mean_axis0 rows action_probs_np_new;
          entropy_pop = entropy action_probs_pop_np;
          entropy_pop_new = entropy action_probs_pop_np_new;
          entropy_pop_delta = vsub entropy_pop_new entropy_pop;
          sampled_action_prob_pop_np = jnp_take action_probs_pop_np actions;
          neg_logp_pop = map (\<lambda>p. - ln p) sampled_action_prob_pop_np;
          sampled_action_prob_pop_np_new = jnp_take action_probs_pop_np_new actions;
          neg_logp_pop_new = map (\<lambda>p. - ln p) sampled_action_prob_pop_np_new;
          neg_logp_pop_delta = vsub neg_logp_pop_new neg_logp_pop
      in (action_probs_pop_np_new, entropy_pop_delta, neg_logp_pop_new, neg_logp_pop_delta))"

text \<open>
  Lines 268 to 273: the shaped reward weighted by the anneal at
  \<^verbatim>\<open>update_step*num_steps*num_envs\<close>, an int32 product of the traced counter, then the
  bonus. The second assignment to
  \<^verbatim>\<open>neg_logp_pop_new_a\<close> replaces the reshaped array by the dictionary of the two
  scalars \<^verbatim>\<open>neg_logp_pop_new[0]\<close> and \<^verbatim>\<open>neg_logp_pop_new[1]\<close>, which \<^verbatim>\<open>tree.map\<close>
  broadcasts over each agent's environments.
\<close>

definition total_reward ::
  "TrainConfig \<Rightarrow> int \<Rightarrow> (agent \<Rightarrow> real list) \<Rightarrow> (agent \<Rightarrow> real list) \<Rightarrow> real list
    \<Rightarrow> agent \<Rightarrow> real list" where
  "total_reward config update_count orig_reward shaped_reward neg_logp_pop_new =
     (let current_timestep =
            int32 (int32 (update_count * int (num_steps config)) * int (num_envs config));
          reward = (\<lambda>a. map2 (\<lambda>x y. x + y * rew_shaping_anneal config current_timestep)
                     (orig_reward a) (shaped_reward a));
          neg_logp_pop_new_a =
            (\<lambda>a. case a of agent_0 \<Rightarrow> neg_logp_pop_new ! 0 | agent_1 \<Rightarrow> neg_logp_pop_new ! 1);
          reward = (\<lambda>a. map (\<lambda>x. x + neg_logp_pop_new_a a * ent_pop_coeff config) (reward a))
      in reward)"

text \<open>
  \<^verbatim>\<open>_env_step(runner_state, unused)\<close>. The runner state is the tuple of the source,
  \<open>(train_state, env_state, last_obs, update_step, rng)\<close>.
\<close>

definition env_step ::
  "('k, 'p, 's, 'ob, 'e, 'i) collaborators \<Rightarrow> TrainConfig
    \<Rightarrow> ('p, 's) PopulationTrainState \<times> 'e \<times> (agent \<Rightarrow> 'ob list) \<times> int \<times> 'k
    \<Rightarrow> error + ((('p, 's) PopulationTrainState \<times> 'e \<times> (agent \<Rightarrow> 'ob list) \<times> int \<times> 'k)
          \<times> ('ob, 'i) Transition)" where
  "env_step C config runner_state =
     (let (train_state, env_state, last_obs, update_count, rng) = runner_state;
          (rng, rng_sub) = random_split C rng;
          obs_batch = batchify last_obs;
          (pi', value) = network_apply C (params train_state) obs_batch;
          action = pi_sample C rng_sub pi';
          log_prob = pi_log_prob pi' action;
          action_probs_agent0 = pi';
          actions = action;
          action_probs_np =
            replicate (population_size config) (replicate (num_actors config) (replicate 6 0));
          actions_np = replicate (population_size config) (replicate (num_actors config) 0)
      in case population_loop C (population train_state) obs_batch
                [0..<population_size config]
                (rng, pi', value, action, log_prob, actions_np, action_probs_np) of
           Inl e \<Rightarrow> Inl e
         | Inr (rng, pi', value, action, log_prob, actions_np, action_probs_np) \<Rightarrow>
            (let (action_probs_pop_np_new, entropy_pop_delta, neg_logp_pop_new,
                    neg_logp_pop_delta) =
                   diversity (num_actors config) (curr_agent_idx train_state)
                     action_probs_np action_probs_agent0 actions;
                 env_act = unbatchify action (num_envs config);
                 (rng, rng_sub) = random_split C rng;
                 rng_step = random_split_n C rng_sub (num_envs config);
                 (obsv, env_state, orig_reward, done, info) =
                   vmap_env_step C rng_step env_state env_act;
                 (shaped_reward, info) = info;
                 reward = total_reward config update_count orig_reward shaped_reward
                            neg_logp_pop_new;
                 transition =
                   \<lparr> done_t = batchify done,
                     action_t = action,
                     value_t = value,
                     reward_t = batchify reward,
                     log_prob_t = log_prob,
                     obs_t = obs_batch,
                     info_t = info,
                     neg_logp_pop_new_t = neg_logp_pop_new,
                     orig_reward_t = batchify orig_reward,
                     shaped_reward_t = batchify shaped_reward,
                     entropy_pop_delta_t = entropy_pop_delta,
                     neg_logp_pop_delta_t = neg_logp_pop_delta \<rparr>;
                 runner_state = (train_state, env_state, obsv, update_count, rng)
             in Inr (runner_state, transition)))"

subsection \<open>Scans\<close>

text \<open>
  \<^verbatim>\<open>jax.lax.scan(f, init, None, length)\<close> for a body that can raise. JAX traces the body
  once before it runs anything, whatever the length, and a Python exception of the body
  (a failed \<^verbatim>\<open>assert\<close>, a \<^verbatim>\<open>KeyError\<close>) is raised by that trace: \<open>lax_scan\<close> first
  applies the body to the initial carry and keeps only its error. The whole of
  \<^verbatim>\<open>_update_step\<close> runs under \<^verbatim>\<open>jax.jit\<close>, so such an exception surfaces while the
  first call is traced, before any array is computed.
\<close>

fun scan_n :: "('c \<Rightarrow> error + 'c \<times> 'y) \<Rightarrow> 'c \<Rightarrow> nat \<Rightarrow> error + 'c \<times> 'y list" where
  "scan_n f carry 0 = Inr (carry, [])"
| "scan_n f carry (Suc n) =
     (case f carry of
        Inl e \<Rightarrow> Inl e
      | Inr (carry', y) \<Rightarrow>
          (case scan_n f carry' n of
             Inl e \<Rightarrow> Inl e
           | Inr (carry'', ys) \<Rightarrow> Inr (carry'', y # ys)))"

definition lax_scan :: "('c \<Rightarrow> error + 'c \<times> 'y) \<Rightarrow> 'c \<Rightarrow> nat \<Rightarrow> error + 'c \<times> 'y list" where
  "lax_scan f init n = (case f init of Inl e \<Rightarrow> Inl e | Inr _ \<Rightarrow> scan_n f init n)"

text \<open>
  \<^verbatim>\<open>jax.lax.scan(f, init, xs, reverse=True)\<close>: the last element is processed first and
  every output stands at the position of its input.
\<close>

fun scan_reverse :: "('c \<Rightarrow> 'x \<Rightarrow> 'c \<times> 'y) \<Rightarrow> 'c \<Rightarrow> 'x list \<Rightarrow> 'c \<times> 'y list" where
  "scan_reverse f init [] = (init, [])"
| "scan_reverse f init (x # xs) =
     (let (carry, ys) = scan_reverse f init xs;
          (carry', y) = f carry x
      in (carry', y # ys))"

subsection \<open>Advantage estimation\<close>

definition get_advantages ::
  "TrainConfig \<Rightarrow> real list \<times> real list \<Rightarrow> ('ob, 'i) Transition
    \<Rightarrow> (real list \<times> real list) \<times> real list" where
  "get_advantages config gae_and_next_value transition =
     (let (gae, next_value) = gae_and_next_value;
          (done, value, reward) =
            (done_t transition, value_t transition, reward_t transition);
          delta = vsub (vadd reward (vmul (smul (gamma config) next_value) (one_minus done)))
                    value;
          gae = vadd delta
                  (vmul (smul (gamma config * gae_lambda config) (one_minus done)) gae)
      in ((gae, value), gae))"

definition calculate_gae ::
  "TrainConfig \<Rightarrow> ('ob, 'i) Transition list \<Rightarrow> real list
    \<Rightarrow> real list list \<times> real list list" where
  "calculate_gae config traj_batch last_val =
     (let (_, advantages) =
            scan_reverse (get_advantages config) (map (\<lambda>_. 0) last_val, last_val) traj_batch
      in (advantages, map2 vadd advantages (map value_t traj_batch)))"

text \<open>The closed form of the claim on constant rewards: \<open>n\<close> terms of the geometric series.\<close>

definition geo :: "real \<Rightarrow> real \<Rightarrow> nat \<Rightarrow> real" where
  "geo x d n = (\<Sum>k<n. x ^ k * d)"

subsection \<open>The optimizer's epochs\<close>

text \<open>The entries of the batch, one row per timestep and one entry per actor.\<close>

definition batch_cells ::
  "('ob, 'i) Transition list \<Rightarrow> real list list \<Rightarrow> real list list \<Rightarrow> 'ob cell list list" where
  "batch_cells traj_batch advantages targets =
     map (\<lambda>(tr, adv, tgt).
            map (\<lambda>(d, a, v, r, l, ob, g, tg).
                   \<lparr> c_done = d, c_action = a, c_value = v, c_reward = r, c_log_prob = l,
                     c_obs = ob, c_gae = g, c_target = tg \<rparr>)
              (zip (done_t tr) (zip (action_t tr) (zip (value_t tr) (zip (reward_t tr)
                (zip (log_prob_t tr) (zip (obs_t tr) (zip adv tgt))))))))
       (zip traj_batch (zip advantages targets))"

text \<open>\<^verbatim>\<open>jnp.reshape(x, [num_minibatches, -1] + ...)\<close>: consecutive chunks of equal length.\<close>

definition reshape_minibatches :: "nat \<Rightarrow> 'a list \<Rightarrow> 'a list list" where
  "reshape_minibatches n xs =
     map (\<lambda>j. take (length xs div n) (drop (j * (length xs div n)) xs)) [0..<n]"

text \<open>
  Lines 388 to 400 of \<^verbatim>\<open>_update_epoch\<close>: flatten the (time, actor) batch, reorder it by
  the permutation (\<^verbatim>\<open>jnp.take(x, permutation, axis=0)\<close>) and cut it into minibatches.
\<close>

definition make_minibatches :: "nat list \<Rightarrow> nat \<Rightarrow> 'a list list \<Rightarrow> 'a list list" where
  "make_minibatches permutation n batch =
     (let batch = concat batch;
          shuffled_batch = map (\<lambda>i. batch ! i) permutation;
          minibatches = reshape_minibatches n shuffled_batch
      in minibatches)"

text \<open>
  \<^verbatim>\<open>_update_minbatch\<close>: the gradient of \<^verbatim>\<open>_loss_fn\<close> and \<^verbatim>\<open>apply_gradients\<close>. The optax
  chain reads its learning rate from \<open>linear_schedule\<close> at its update count, which is the
  train state's \<open>step\<close>: both start at zero and grow by one at every \<^verbatim>\<open>apply_gradients\<close>.
  The loss value is not kept (the source never reads \<^verbatim>\<open>loss_info\<close>).
\<close>

definition update_minbatch ::
  "('k, 'p, 's, 'ob, 'e, 'i) collaborators \<Rightarrow> TrainConfig
    \<Rightarrow> ('p, 's) PopulationTrainState \<Rightarrow> 'ob cell list \<Rightarrow> ('p, 's) PopulationTrainState" where
  "update_minbatch C config train_state batch_info =
     (let (p, s) = grad_update C (linear_schedule config (step train_state))
                     (params train_state) (opt_state train_state) batch_info
      in train_state \<lparr> step := step train_state + 1, params := p, opt_state := s \<rparr>)"

definition update_epoch ::
  "('k, 'p, 's, 'ob, 'e, 'i) collaborators \<Rightarrow> TrainConfig
    \<Rightarrow> ('p, 's) PopulationTrainState \<times> ('ob, 'i) Transition list \<times> real list list
        \<times> real list list \<times> 'k
    \<Rightarrow> error + ((('p, 's) PopulationTrainState \<times> ('ob, 'i) Transition list \<times> real list list
        \<times> real list list \<times> 'k) \<times> unit)" where
  "update_epoch C config update_state =
     (let (train_state, traj_batch, advantages, targets, rng) = update_state;
          (rng, rng_sub) = random_split C rng;
          batch_size = minibatch_size config * num_minibatches config
      in if batch_size \<noteq> num_steps config * num_actors config then Inl AssertionError
         else (let permutation = random_permutation C rng_sub batch_size;
                   batch = batch_cells traj_batch advantages targets;
                   minibatches = make_minibatches permutation (num_minibatches config) batch;
                   train_state = foldl (update_minbatch C config) train_state minibatches;
                   update_state = (train_state, traj_batch, advantages, targets, rng)
               in Inr (update_state, ())))"

subsection \<open>One training iteration\<close>

text \<open>\<^verbatim>\<open>x.sum(axis=0)\<close> of a (time, actor) matrix with \<open>n\<close> columns.\<close>

definition sum_axis0 :: "nat \<Rightarrow> real list list \<Rightarrow> real list" where
  "sum_axis0 n xs = foldr vadd xs (replicate n 0)"

text \<open>
  \<^verbatim>\<open>_update_step(runner_state)\<close>: collect \<open>num_steps\<close> transitions, estimate advantages,
  run the epochs, count the iteration (in int32). The means of the environment's episode
  info and the logging callback are left out of the metric.
\<close>

definition update_step ::
  "('k, 'p, 's, 'ob, 'e, 'i) collaborators \<Rightarrow> TrainConfig
    \<Rightarrow> ('p, 's) PopulationTrainState \<times> 'e \<times> (agent \<Rightarrow> 'ob list) \<times> int \<times> 'k
    \<Rightarrow> error + ((('p, 's) PopulationTrainState \<times> 'e \<times> (agent \<Rightarrow> 'ob list) \<times> int \<times> 'k)
          \<times> metric)" where
  "update_step C config runner_state =
     (case lax_scan (env_step C config) runner_state (num_steps config) of
        Inl e \<Rightarrow> Inl e
      | Inr (runner_state, traj_batch) \<Rightarrow>
          (let (train_state, env_state, last_obs, update_count, rng) = runner_state;
               last_obs_batch = batchify last_obs;
               (_, last_val) = network_apply C (params train_state) last_obs_batch;
               (advantages, targets) = calculate_gae config traj_batch last_val;
               update_state = (train_state, traj_batch, advantages, targets, rng)
           in case lax_scan (update_epoch C config) update_state (update_epochs config) of
                Inl e \<Rightarrow> Inl e
              | Inr (update_state, loss_info) \<Rightarrow>
                  (let (train_state, _, _, _, rng) = update_state;
                       update_count = int32 (update_count + 1);
                       metric =
                         \<lparr> update_step_m = update_count,
                           env_step_m =
                             int32 (int32 (update_count * int (num_steps config))
                                      * int (num_envs config)),
                           neg_logp_pop_new_m =
                             mean (concat (map neg_logp_pop_new_t traj_batch)),
                           entropy_pop_delta_m =
                             mean (concat (map entropy_pop_delta_t traj_batch)),
                           neg_logp_pop_delta_m =
                             mean (concat (map neg_logp_pop_delta_t traj_batch)),
                           orig_reward_m =
                             mean (sum_axis0 (num_actors config)
                                     (map orig_reward_t traj_batch)) / 2,
                           shaped_reward_m =
                             mean (sum_axis0 (num_actors config)
                                     (map shaped_reward_t traj_batch)) \<rparr>;
                       runner_state = (train_state, env_state, last_obs, update_count, rng)
                   in Inr (runner_state, metric))))"

subsection \<open>The training loop\<close>

text \<open>\<^verbatim>\<open>jax.random.choice(key, a)\<close> raises \<^verbatim>\<open>ValueError\<close> on an empty array.\<close>

definition jax_random_choice ::
  "('k, 'p, 's, 'ob, 'e, 'i) collaborators \<Rightarrow> 'k \<Rightarrow> nat list \<Rightarrow> error + nat" where
  "jax_random_choice C key a = (if a = [] then Inl ValueError else Inr (random_choice C key a))"

text \<open>The loop of \<^verbatim>\<open>train\<close> that fills \<^verbatim>\<open>a_jnp_dict\<close>.\<close>

fun init_population ::
  "('k, 'p, 's, 'ob, 'e, 'i) collaborators \<Rightarrow> nat list \<Rightarrow> 'k \<times> (nat \<rightharpoonup> 'p)
    \<Rightarrow> 'k \<times> (nat \<rightharpoonup> 'p)" where
  "init_population C [] st = st"
| "init_population C (i # rest) (rng, a_jnp_dict) =
     (let (rng, rng_a) = random_split C rng;
          a_jnp_dict = a_jnp_dict(i \<mapsto> network_init C rng_a)
      in init_population C rest (rng, a_jnp_dict))"

text \<open>
  Lines 536 to 544 of \<^verbatim>\<open>train\<close>, for a new index already drawn: the new trainee's
  parameters are read from the population, then the trained parameters are written to
  the old trainee's slot, then the train state is replaced.
\<close>

definition reinsert_and_checkout ::
  "nat list \<Rightarrow> nat \<Rightarrow> nat \<Rightarrow> ('p, 's) PopulationTrainState
    \<Rightarrow> error + ('p, 's) PopulationTrainState" where
  "reinsert_and_checkout all_agent_idcs old_param_idx new_param_idx train_state =
     (let pop = population train_state
      in case pop new_param_idx of
           None \<Rightarrow> Inl KeyError
         | Some new_params_to_train \<Rightarrow>
             (let pop = pop(old_param_idx \<mapsto> params train_state)
              in Inr (train_state
                   \<lparr> population := pop,
                     params := new_params_to_train,
                     curr_agent_idx := new_param_idx,
                     other_agent_idcs :=
                       filter (\<lambda>i. i \<noteq> new_param_idx) all_agent_idcs \<rparr>)))"

text \<open>
  \<^verbatim>\<open>train\<close> up to its loop. The variables the loop carries are
  \<open>(key, runner_state, old_param_idx, metric)\<close>; \<^verbatim>\<open>metric\<close> is unbound before the
  first iteration. With \<^verbatim>\<open>anneal_lr\<close> off the source evaluates \<^verbatim>\<open>config["LR"]\<close> on
  the dataclass, a \<^verbatim>\<open>TypeError\<close>. The configuration has been through \<open>post_init\<close>.
\<close>

definition train_init ::
  "('k, 'p, 's, 'ob, 'e, 'i) collaborators \<Rightarrow> TrainConfig
    \<Rightarrow> error + ('k \<times> (('p, 's) PopulationTrainState \<times> 'e \<times> (agent \<Rightarrow> 'ob list) \<times> int \<times> 'k)
          \<times> nat \<times> metric option)" where
  "train_init C config =
     (let rng = random_PRNGKey C (seed config);
          (rng, a_jnp_dict) =
            init_population C [0..<population_size config] (rng, Map.empty)
      in if \<not> anneal_lr config then Inl TypeError
         else (let key = random_PRNGKey C 0;
                   all_agent_idcs = [0..<population_size config]
               in case jax_random_choice C key all_agent_idcs of
                    Inl e \<Rightarrow> Inl e
                  | Inr param_idx \<Rightarrow>
                      (let other_agent_idcs = filter (\<lambda>i. i \<noteq> param_idx) all_agent_idcs
                       in case a_jnp_dict param_idx of
                            None \<Rightarrow> Inl KeyError
                          | Some params_ts \<Rightarrow>
                              (let train_state =
                                     \<lparr> step = 0, params = params_ts,
                                       opt_state = tx_init C params_ts,
                                       population = a_jnp_dict,
                                       other_agent_idcs = other_agent_idcs,
                                       curr_agent_idx = param_idx \<rparr>;
                                   (rng, rng_sub) = random_split C rng;
                                   reset_rng = random_split_n C rng_sub (num_envs config);
                                   (obsv, env_state) = vmap_env_reset C reset_rng;
                                   runner_state = (train_state, env_state, obsv, 0, rng_sub);
                                   old_param_idx = param_idx
                               in Inr (key, runner_state, old_param_idx, None)))))"

text \<open>
  The body of \<^verbatim>\<open>for i in range(config.num_updates)\<close>. The checkpoint branch writes files
  and changes no variable of the loop; its condition \<^verbatim>\<open>i % config.checkpoint_freq\<close>
  raises on a zero frequency.
\<close>

definition train_iteration ::
  "('k, 'p, 's, 'ob, 'e, 'i) collaborators \<Rightarrow> TrainConfig \<Rightarrow> nat
    \<Rightarrow> 'k \<times> (('p, 's) PopulationTrainState \<times> 'e \<times> (agent \<Rightarrow> 'ob list) \<times> int \<times> 'k)
        \<times> nat \<times> metric option
    \<Rightarrow> error + ('k \<times> (('p, 's) PopulationTrainState \<times> 'e \<times> (agent \<Rightarrow> 'ob list) \<times> int \<times> 'k)
          \<times> nat \<times> metric option)" where
  "train_iteration C config i vars =
     (let (key, runner_state, old_param_idx, metric) = vars;
          all_agent_idcs = [0..<population_size config];
          (key, key_sub) = random_split C key
      in case update_step C config runner_state of
           Inl e \<Rightarrow> Inl e
         | Inr (runner_state, metric) \<Rightarrow>
             (let train_state = fst runner_state
              in case jax_random_choice C key_sub all_agent_idcs of
                   Inl e \<Rightarrow> Inl e
                 | Inr new_param_idx \<Rightarrow>
                     (case reinsert_and_checkout all_agent_idcs old_param_idx new_param_idx
                             train_state of
                        Inl e \<Rightarrow> Inl e
                      | Inr train_state \<Rightarrow>
                          (let runner_state = (train_state, snd runner_state);
                               old_param_idx = new_param_idx
                           in if checkpoint_freq config = 0 then Inl ZeroDivisionError
                              else Inr (key, runner_state, old_param_idx, Some metric)))))"

text \<open>The loop's variables after \<open>n\<close> iterations.\<close>

fun train_loop ::
  "('k, 'p, 's, 'ob, 'e, 'i) collaborators \<Rightarrow> TrainConfig \<Rightarrow> nat
    \<Rightarrow> error + ('k \<times> (('p, 's) PopulationTrainState \<times> 'e \<times> (agent \<Rightarrow> 'ob list) \<times> int \<times> 'k)
          \<times> nat \<times> metric option)" where
  "train_loop C config 0 = train_init C config"
| "train_loop C config (Suc i) =
     (case train_loop C config i of
        Inl e \<Rightarrow> Inl e
      | Inr vars \<Rightarrow> train_iteration C config i vars)"

text \<open>
  \<^verbatim>\<open>train(config)\<close>, from the fields of the configuration as given:
  \<^verbatim>\<open>__post_init__\<close>, the loop, and the returned runner state and metrics.
\<close>

definition train ::
  "('k, 'p, 's, 'ob, 'e, 'i) collaborators \<Rightarrow> TrainConfig
    \<Rightarrow> error + ((('p, 's) PopulationTrainState \<times> 'e \<times> (agent \<Rightarrow> 'ob list) \<times> int \<times> 'k)
          \<times> metric)" where
  "train C config0 =
     (case post_init config0 of
        Inl e \<Rightarrow> Inl e
      | Inr config \<Rightarrow>
          (case train_loop C config (num_updates config) of
             Inl e \<Rightarrow> Inl e
           | Inr (key, runner_state, old_param_idx, metric) \<Rightarrow>
               (case metric of
                  None \<Rightarrow> Inl UnboundLocalError
                | Some m \<Rightarrow> Inr (runner_state, m))))"

text \<open>
  The trainee index in force after \<open>n\<close> iterations (the initial pick \<^verbatim>\<open>param_idx\<close> for
  \<open>n = 0\<close>, then the \<^verbatim>\<open>new_param_idx\<close> of each iteration, which the loop keeps in
  \<^verbatim>\<open>old_param_idx\<close>), and the sequence of these indices over a whole run of \<^verbatim>\<open>train\<close>.
\<close>

definition trainee_index ::
  "('k, 'p, 's, 'ob, 'e, 'i) collaborators \<Rightarrow> TrainConfig \<Rightarrow> nat \<Rightarrow> error + nat" where
  "trainee_index C config n =
     (case train_loop C config n of
        Inl e \<Rightarrow> Inl e
      | Inr (key, runner_state, old_param_idx, metric) \<Rightarrow> Inr old_param_idx)"

definition drawn_indices ::
  "('k, 'p, 's, 'ob, 'e, 'i) collaborators \<Rightarrow> TrainConfig \<Rightarrow> error + (error + nat) list" where
  "drawn_indices C config0 =
     (case post_init config0 of
        Inl e \<Rightarrow> Inl e
      | Inr config \<Rightarrow> Inr (map (trainee_index C config) [0..<Suc (num_updates config)]))"

text \<open>
  The draws as a function of the constant key alone: the key and index that \<^verbatim>\<open>train\<close>
  holds before its loop, and those it holds after one more iteration that started with
  key \<open>key\<close>, or the exception raised first. Neither reads the seed; the theorems below
  show that the loop of \<open>train_loop\<close> follows them.
\<close>

definition draw_initial ::
  "('k, 'p, 's, 'ob, 'e, 'i) collaborators \<Rightarrow> TrainConfig \<Rightarrow> error + 'k \<times> nat" where
  "draw_initial C config =
     (if \<not> anneal_lr config then Inl TypeError
      else if population_size config = 0 then Inl ValueError
      else (let key = random_PRNGKey C 0;
                idx = random_choice C key [0..<population_size config]
            in if idx < population_size config then Inr (key, idx) else Inl KeyError))"

definition draw_next ::
  "('k, 'p, 's, 'ob, 'e, 'i) collaborators \<Rightarrow> TrainConfig \<Rightarrow> 'k \<Rightarrow> error + 'k \<times> nat" where
  "draw_next C config key =
     (if minibatch_size config * num_minibatches config \<noteq> num_steps config * num_actors config
      then Inl AssertionError
      else (let (key, key_sub) = random_split C key;
                idx = random_choice C key_sub [0..<population_size config]
            in if \<not> idx < population_size config then Inl KeyError
               else if checkpoint_freq config = 0 then Inl ZeroDivisionError
               else Inr (key, idx)))"

fun draw_trace ::
  "('k, 'p, 's, 'ob, 'e, 'i) collaborators \<Rightarrow> TrainConfig \<Rightarrow> nat \<Rightarrow> error + 'k \<times> nat" where
  "draw_trace C config 0 = draw_initial C config"
| "draw_trace C config (Suc n) =
     (case draw_trace C config n of
        Inl e \<Rightarrow> Inl e
      | Inr (key, idx) \<Rightarrow> draw_next C config key)"

text \<open>The population's shape between iterations, for the trainee index \<open>old\<close>.\<close>

definition pop_inv ::
  "TrainConfig \<Rightarrow> ('p, 's) PopulationTrainState \<Rightarrow> nat \<Rightarrow> bool" where
  "pop_inv config ts old =
     (dom (population ts) = {0..<population_size config}
      \<and> curr_agent_idx ts = old \<and> old < population_size config
      \<and> other_agent_idcs ts = filter (\<lambda>i. i \<noteq> old) [0..<population_size config])"


subsection \<open>A small configuration\<close>

text \<open>
  Concrete inputs on which the theorems below are exercised: two population members,
  two environments (four actors), one step per iteration, two minibatches.
\<close>

definition demo_config0 :: TrainConfig where
  "demo_config0 =
     \<lparr> checkpoint_freq = 100, population_size = 2, ent_pop_coeff = 1 / 100,
       rew_shaping_horizon = 100, seed = 42, lr = 1, anneal_lr = True,
       num_envs = 2, num_steps = 1, total_timesteps = 4, update_epochs = 1,
       num_minibatches = 2, gamma = 1 / 2, gae_lambda = 1 / 2,
       num_actors = 0, num_updates = 0, minibatch_size = 0 \<rparr>"

definition demo_config :: TrainConfig where
  "demo_config = demo_config0 \<lparr> num_actors := 4, num_updates := 2, minibatch_size := 2 \<rparr>"

text \<open>
  Two configurations whose three minibatches do not divide the batch of four: one with
  a budget for two iterations, one with a budget for none.
\<close>

definition demo_bad0 :: TrainConfig where
  "demo_bad0 = demo_config0 \<lparr> num_minibatches := 3 \<rparr>"

definition demo_short0 :: TrainConfig where
  "demo_short0 = demo_config0 \<lparr> num_minibatches := 3, total_timesteps := 1 \<rparr>"

definition demo_transition :: "(nat, unit) Transition" where
  "demo_transition =
     \<lparr> done_t = [False], action_t = [0], value_t = [2], reward_t = [1], log_prob_t = [0],
       obs_t = [0], info_t = (), neg_logp_pop_new_t = [0], orig_reward_t = [1],
       shaped_reward_t = [0], entropy_pop_delta_t = [0], neg_logp_pop_delta_t = [0] \<rparr>"

text \<open>
  Collaborators for those inputs. The network puts probability \<open>1/2\<close> on action
  \<open>(p + ob) mod 6\<close> for parameters \<open>p\<close> and observation \<open>ob\<close> and \<open>1/10\<close> on each other
  action, its value is \<open>p + ob\<close>, and sampling returns the most probable action. The
  environment has one instance per key; its state is the list of the actions of its
  last step, its reward is the action taken and its shaped reward is 1.
\<close>

definition toy_probs :: "nat \<Rightarrow> nat \<Rightarrow> real list" where
  "toy_probs p ob = map (\<lambda>a. if a = (p + ob) mod 6 then 1 / 2 else 1 / 10) [0..<6]"

definition toy_mode :: "real list \<Rightarrow> nat" where
  "toy_mode row = length (takeWhile (\<lambda>x. x < 1 / 2) row)"

definition toy :: "(nat, nat, unit, nat, nat list, unit) collaborators" where
  "toy =
     \<lparr> random_PRNGKey = (\<lambda>s. nat \<bar>s\<bar>),
       random_split = (\<lambda>k. (2 * k + 1, 3 * k + 1)),
       random_split_n = (\<lambda>k n. map (\<lambda>i. k + i) [0..<n]),
       random_choice = (\<lambda>k a. a ! (k mod length a)),
       random_permutation = (\<lambda>k n. rev [0..<n]),
       network_init = (\<lambda>k. k),
       network_apply = (\<lambda>p obs. (map (toy_probs p) obs, map (\<lambda>ob. real (p + ob)) obs)),
       pi_sample = (\<lambda>k probs. map toy_mode probs),
       tx_init = (\<lambda>p. ()),
       grad_update = (\<lambda>rate p s batch. (p + 1, ())),
       vmap_env_reset =
         (\<lambda>keys. ((\<lambda>a. case a of agent_0 \<Rightarrow> [0, 2] | agent_1 \<Rightarrow> [4, 1]), [])),
       vmap_env_step =
         (\<lambda>keys e acts.
            (\<lambda>a. case a of agent_0 \<Rightarrow> [0, 2] | agent_1 \<Rightarrow> [4, 1],
             acts agent_0 @ acts agent_1,
             \<lambda>a. map real (take (length keys) (acts a @ replicate (length keys) 0)),
             \<lambda>a. replicate (length keys) False,
             (\<lambda>a. replicate (length keys) 1, ()))) \<rparr>"

text \<open>
  A runner state at the start of an iteration: member 0 is the trainee, its parameters
  are the copy of its population slot.
\<close>

definition demo_train_state :: "(nat, unit) PopulationTrainState" where
  "demo_train_state =
     \<lparr> step = 0, params = 0, opt_state = (), population = [0 \<mapsto> 0, 1 \<mapsto> 1],
       other_agent_idcs = [1], curr_agent_idx = 0 \<rparr>"

definition demo_obs :: "agent \<Rightarrow> nat list" where
  "demo_obs a = (case a of agent_0 \<Rightarrow> [0, 2] | agent_1 \<Rightarrow> [4, 1])"

definition demo_runner_state ::
  "(nat, unit) PopulationTrainState \<times> nat list \<times> (agent \<Rightarrow> nat list) \<times> int \<times> nat" where
  "demo_runner_state = (demo_train_state, [], demo_obs, 0, 7)"

subsection \<open>Entropy bounds\<close>

lemma neg_p_logp_nonneg:
  fixes p :: real
  assumes "0 < p" and "p \<le> 1"
  shows "0 \<le> - p * ln p"
proof -
  have "ln p \<le> 0" using assms by simp
  then have "p * ln p \<le> 0" using assms(1) by (simp add: mult_le_0_iff)
  then show ?thesis by simp
qed

lemma member_le_sum_list:
  fixes xs :: "real list"
  assumes "\<And>x. x \<in> set xs \<Longrightarrow> 0 \<le> x" and "p \<in> set xs"
  shows "p \<le> sum_list xs"
  using assms
proof (induction xs)
  case Nil
  then show ?case by simp
next
  case (Cons a xs)
  have rest: "0 \<le> sum_list xs"
    using Cons.prems(1) by (intro sum_list_nonneg) simp
  show ?case
  proof (cases "p = a")
    case True
    then show ?thesis using rest by simp
  next
    case False
    then have "p \<in> set xs" using Cons.prems(2) by simp
    then have "p \<le> sum_list xs" using Cons.IH Cons.prems(1) by simp
    moreover have "0 \<le> a" using Cons.prems(1) by simp
    ultimately show ?thesis by simp
  qed
qed

lemma row_entropy_nonneg:
  fixes row :: "real list"
  assumes pos: "\<And>p. p \<in> set row \<Longrightarrow> 0 < p" and one: "sum_list row = 1"
  shows "0 \<le> sum_list (map (\<lambda>p. - p * ln p) row)"
proof (rule sum_list_nonneg)
  fix y assume "y \<in> set (map (\<lambda>p. - p * ln p) row)"
  then obtain p where p: "p \<in> set row" and y: "y = - p * ln p" by auto
  have "p \<le> sum_list row"
    using member_le_sum_list [of row p] pos p by (simp add: less_imp_le)
  then have "p \<le> 1" using one by simp
  then show "0 \<le> y" using neg_p_logp_nonneg [of p] pos [OF p] y by simp
qed

lemma gibbs_term:
  fixes p n :: real
  assumes "0 < p" and "0 < n"
  shows "- p * ln p - p * ln n \<le> 1 / n - p"
proof -
  have pos: "0 < 1 / (n * p)" using assms by simp
  have "ln (1 / (n * p)) \<le> 1 / (n * p) - 1"
    using ln_le_minus_one [OF pos] .
  then have "p * ln (1 / (n * p)) \<le> p * (1 / (n * p) - 1)"
    using assms(1) by (simp add: mult_left_mono)
  moreover have "ln (1 / (n * p)) = - ln n - ln p"
    using assms by (simp add: ln_div ln_mult)
  moreover have "p * (1 / (n * p) - 1) = 1 / n - p"
    using assms by (simp add: field_simps)
  ultimately show ?thesis by (simp add: algebra_simps)
qed

lemma sum_list_const_real:
  fixes c :: real
  shows "sum_list (map (\<lambda>_. c) xs) = real (length xs) * c"
  by (induction xs) (simp_all add: algebra_simps)

lemma row_entropy_le_ln:
  fixes row :: "real list"
  assumes pos: "\<And>p. p \<in> set row \<Longrightarrow> 0 < p" and one: "sum_list row = 1"
  shows "sum_list (map (\<lambda>p. - p * ln p) row) \<le> ln (real (length row))"
proof -
  have ne: "row \<noteq> []" using one by auto
  define n where "n = real (length row)"
  have npos: "0 < n" using ne by (simp add: n_def)
  have "sum_list (map (\<lambda>p. - p * ln p - p * ln n) row)
      \<le> sum_list (map (\<lambda>p. 1 / n - p) row)"
    by (rule sum_list_mono) (use pos npos gibbs_term in blast)
  moreover have "sum_list (map (\<lambda>p. - p * ln p - p * ln n) row)
      = sum_list (map (\<lambda>p. - p * ln p) row) - sum_list row * ln n"
    by (simp add: sum_list_subtractf sum_list_mult_const)
  moreover have "sum_list (map (\<lambda>p. 1 / n - p) row) = n * (1 / n) - sum_list row"
    by (simp add: sum_list_subtractf sum_list_const_real n_def)
  ultimately have "sum_list (map (\<lambda>p. - p * ln p) row) - ln n \<le> 0"
    using one npos by simp
  then show ?thesis by (simp add: n_def)
qed

text \<open>
  C8. For every row of the probability matrix that is a probability vector with every
  action's probability strictly positive, the entropy the scorer computes for that row
  is non-negative and at most the logarithm of the number of actions; for the six
  actions of the source that bound is \<open>MAX_ENT\<close>.
\<close>

theorem entropy_bounds:
  assumes "i < length action_probs"
    and "\<forall>p \<in> set (action_probs ! i). 0 < p"
    and "sum_list (action_probs ! i) = 1"
  shows "0 \<le> entropy action_probs ! i
    \<and> entropy action_probs ! i \<le> ln (real (length (action_probs ! i)))
    \<and> (length (action_probs ! i) = 6 \<longrightarrow> entropy action_probs ! i \<le> MAX_ENT)"
proof -
  let ?row = "action_probs ! i"
  have e: "entropy action_probs ! i = sum_list (map (\<lambda>p. - p * ln p) ?row)"
    using assms(1) by (simp add: entropy_def)
  have lo: "0 \<le> sum_list (map (\<lambda>p. - p * ln p) ?row)"
    using row_entropy_nonneg [of ?row] assms(2,3) by blast
  have hi: "sum_list (map (\<lambda>p. - p * ln p) ?row) \<le> ln (real (length ?row))"
    using row_entropy_le_ln [of ?row] assms(2,3) by blast
  have "MAX_ENT = ln 6" by (simp add: MAX_ENT_def ln_div)
  then show ?thesis using e lo hi by auto
qed

theorem entropy_bounds_witness:
  "0 \<le> entropy [[1/2, 1/2]] ! 0 \<and> entropy [[1/2, 1/2]] ! 0 \<le> ln 2"
  using entropy_bounds [of 0 "[[1/2, 1/2]]"] by simp

subsection \<open>Advantages on constant rewards\<close>

lemma geo_Suc: "geo x d (Suc n) = d + x * geo x d n"
  unfolding geo_def
  by (simp add: sum.lessThan_Suc_shift sum_distrib_left algebra_simps del: sum.lessThan_Suc)

lemma get_advantages_const:
  assumes "done_t tr = replicate A False" and "reward_t tr = replicate A r"
    and "value_t tr = replicate A v"
  shows "get_advantages config (replicate A g, replicate A v) tr
     = ((replicate A ((r + gamma config * v - v) + gamma config * gae_lambda config * g),
         replicate A v),
        replicate A ((r + gamma config * v - v) + gamma config * gae_lambda config * g))"
  using assms
  by (simp add: get_advantages_def Let_def vadd_def vsub_def vmul_def smul_def one_minus_def
      zip_replicate)

lemma scan_reverse_const:
  assumes "\<forall>tr \<in> set traj. done_t tr = replicate A False
             \<and> reward_t tr = replicate A r \<and> value_t tr = replicate A v"
  shows "scan_reverse (get_advantages config) (replicate A 0, replicate A v) traj
     = ((replicate A (geo (gamma config * gae_lambda config) (r + gamma config * v - v)
                       (length traj)), replicate A v),
        map (\<lambda>t. replicate A (geo (gamma config * gae_lambda config)
                               (r + gamma config * v - v) (length traj - t)))
          [0..<length traj])"
  using assms
proof (induction traj)
  case Nil
  then show ?case by (simp add: geo_def)
next
  case (Cons tr traj)
  have tr: "done_t tr = replicate A False" "reward_t tr = replicate A r"
    "value_t tr = replicate A v"
    using Cons.prems by simp_all
  have IH: "scan_reverse (get_advantages config) (replicate A 0, replicate A v) traj
     = ((replicate A (geo (gamma config * gae_lambda config) (r + gamma config * v - v)
                       (length traj)), replicate A v),
        map (\<lambda>t. replicate A (geo (gamma config * gae_lambda config)
                               (r + gamma config * v - v) (length traj - t)))
          [0..<length traj])"
    using Cons by simp
  have shift: "map (\<lambda>t. replicate A (geo x d (Suc n - t))) [0..<Suc n]
     = replicate A (geo x d (Suc n)) # map (\<lambda>t. replicate A (geo x d (n - t))) [0..<n]"
    for x d n
    by (simp add: upt_conv_Cons map_Suc_upt [symmetric] del: upt_Suc)
  show ?case
    by (simp add: IH get_advantages_const [OF tr] geo_Suc shift del: upt_Suc)
qed

text \<open>
  C6. On a trajectory batch whose done flags are all 0 and whose rewards and values are
  the constants \<open>r\<close> and \<open>v\<close> (the bootstrap value too), the advantage that the reverse
  scan computes at timestep \<open>t\<close> for every actor is the geometric series
  \<open>\<Sum>k = 0..T-1-t. (\<gamma>\<lambda>)^k (r + \<gamma> v - v)\<close>, and the value target is that advantage plus
  \<open>v\<close>. (Over the reals: rounding is not modelled.)
\<close>

theorem gae_closed_form:
  assumes "\<forall>tr \<in> set traj_batch. done_t tr = replicate A False
             \<and> reward_t tr = replicate A r \<and> value_t tr = replicate A v"
    and "last_val = replicate A v"
    and "t < length traj_batch" and "a < A"
  shows "fst (calculate_gae config traj_batch last_val) ! t ! a
           = (\<Sum>k = 0..length traj_batch - 1 - t.
                (gamma config * gae_lambda config) ^ k * (r + gamma config * v - v))
       \<and> snd (calculate_gae config traj_batch last_val) ! t ! a
           = (\<Sum>k = 0..length traj_batch - 1 - t.
                (gamma config * gae_lambda config) ^ k * (r + gamma config * v - v)) + v"
proof -
  let ?x = "gamma config * gae_lambda config"
  let ?d = "r + gamma config * v - v"
  let ?T = "length traj_batch"
  have adv: "fst (calculate_gae config traj_batch last_val)
      = map (\<lambda>t. replicate A (geo ?x ?d (?T - t))) [0..<?T]"
    using scan_reverse_const [OF assms(1), of config] assms(2)
    by (simp add: calculate_gae_def map_replicate_const)
  have vals: "map value_t traj_batch ! t = replicate A v"
    using assms(1,3) by simp
  have set_eq: "{0..?T - 1 - t} = {..<?T - t}"
    using assms(3) by auto
  have g: "geo ?x ?d (?T - t) = (\<Sum>k = 0..?T - 1 - t. ?x ^ k * ?d)"
    unfolding geo_def set_eq ..
  have a1: "fst (calculate_gae config traj_batch last_val) ! t ! a = geo ?x ?d (?T - t)"
    using adv assms(3,4) by simp
  have "snd (calculate_gae config traj_batch last_val)
      = map2 vadd (fst (calculate_gae config traj_batch last_val)) (map value_t traj_batch)"
    by (simp add: calculate_gae_def split: prod.splits)
  then have "snd (calculate_gae config traj_batch last_val) ! t
      = vadd (replicate A (geo ?x ?d (?T - t))) (replicate A v)"
    using adv vals assms(3) by simp
  then have a2: "snd (calculate_gae config traj_batch last_val) ! t ! a
      = geo ?x ?d (?T - t) + v"
    using assms(4) by (simp add: vadd_def zip_replicate)
  show ?thesis using a1 a2 g by simp
qed

theorem gae_closed_form_witness:
  "fst (calculate_gae demo_config [demo_transition, demo_transition] [2]) ! 0 ! 0
     = (\<Sum>k = 0..1. (gamma demo_config * gae_lambda demo_config) ^ k
          * (1 + gamma demo_config * 2 - 2))
   \<and> snd (calculate_gae demo_config [demo_transition, demo_transition] [2]) ! 0 ! 0
     = (\<Sum>k = 0..1. (gamma demo_config * gae_lambda demo_config) ^ k
          * (1 + gamma demo_config * 2 - 2)) + 2"
proof -
  have h1: "\<forall>tr \<in> set [demo_transition, demo_transition]. done_t tr = replicate 1 False
             \<and> reward_t tr = replicate 1 1 \<and> value_t tr = replicate 1 2"
    by (simp add: demo_transition_def)
  have h2: "[2 :: real] = replicate 1 2" by simp
  have h3: "0 < length [demo_transition, demo_transition]" by simp
  have h4: "(0 :: nat) < 1" by simp
  have len: "length [demo_transition, demo_transition] - 1 - 0 = 1" by simp
  show ?thesis
    using gae_closed_form [OF h1 h2 h3 h4, of demo_config] unfolding len .
qed

subsection \<open>Schedules and rewards\<close>





lemma div_block: "j < (k::nat) \<Longrightarrow> (i * k + j) div k = i"
  by simp

lemma ls_iter:
  assumes "j < num_minibatches config * update_epochs config"
  shows "linear_schedule config (i * (num_minibatches config * update_epochs config) + j)
     = lr config * (1 - real i / real (num_updates config))"
proof -
  let ?k = "num_minibatches config * update_epochs config"
  have "(i * ?k + j) div ?k = i" using assms by (rule div_block)
  then show ?thesis by (simp add: linear_schedule_def Let_def)
qed

lemma ls_boundary:
  assumes "0 < num_minibatches config * update_epochs config"
  shows "linear_schedule config (i * (num_minibatches config * update_epochs config))
     = lr config * (1 - real (i * (num_minibatches config * update_epochs config)) / real (num_updates config * update_epochs config * num_minibatches config))"
  using assms by (simp add: linear_schedule_def Let_def field_simps)

subsection \<open>Frame and progress of one iteration\<close>

lemma population_loop_error:
  "population_loop C pop obs_batch idxs st = Inl e \<Longrightarrow> e = KeyError \<and> \<not> set idxs \<subseteq> dom pop"
proof (induction idxs arbitrary: st)
  case Nil
  then show ?case by simp
next
  case (Cons i rest)
  obtain rng pi' v action log_prob actions_np action_probs_np
    where st: "st = (rng, pi', v, action, log_prob, actions_np, action_probs_np)"
    by (cases st) auto
  show ?case
  proof (cases "pop i")
    case None
    then show ?thesis using Cons.prems st by auto
  next
    case (Some member)
    then show ?thesis using Cons.prems Cons.IH st
      by (auto simp: Let_def split: prod.splits)
  qed
qed

lemma population_loop_ok:
  "set idxs \<subseteq> dom pop \<Longrightarrow> \<exists>st'. population_loop C pop obs_batch idxs st = Inr st'"
proof (cases "population_loop C pop obs_batch idxs st")
  case (Inl e)
  assume "set idxs \<subseteq> dom pop"
  then show ?thesis using population_loop_error [OF Inl] by simp
next
  case (Inr st')
  then show ?thesis by blast
qed

lemma env_step_error:
  assumes "env_step C config rs = Inl e"
  shows "e = KeyError \<and> \<not> {0..<population_size config} \<subseteq> dom (population (fst rs))"
  using assms
  by (auto simp: env_step_def Let_def split: prod.splits sum.splits
      dest!: population_loop_error)

lemma env_step_ok:
  assumes "{0..<population_size config} \<subseteq> dom (population (fst rs))"
  shows "\<exists>r. env_step C config rs = Inr r"
proof (cases "env_step C config rs")
  case (Inl e)
  then show ?thesis using env_step_error [OF Inl] assms by simp
next
  case (Inr r)
  then show ?thesis by blast
qed

lemma env_step_frame:
  assumes "env_step C config rs = Inr (rs', tr)"
  shows "fst rs' = fst rs \<and> fst (snd (snd (snd rs'))) = fst (snd (snd (snd rs)))"
  using assms
  by (auto simp: env_step_def Let_def split: prod.splits sum.splits)

lemma scan_n_invariant:
  assumes "\<And>c c' y. I c \<Longrightarrow> f c = Inr (c', y) \<Longrightarrow> I c'"
    and "I c" and "scan_n f c n = Inr (c', ys)"
  shows "I c' \<and> length ys = n"
  using assms(2,3)
proof (induction n arbitrary: c c' ys)
  case 0
  then show ?case by simp
next
  case (Suc n)
  then show ?case
    by (auto split: sum.splits prod.splits dest: assms(1))
qed

lemma scan_n_error:
  assumes "\<And>c c' y. I c \<Longrightarrow> f c = Inr (c', y) \<Longrightarrow> I c'"
    and "I c" and "scan_n f c n = Inl e"
  shows "\<exists>c0. I c0 \<and> f c0 = Inl e"
  using assms(2,3)
proof (induction n arbitrary: c)
  case 0
  then show ?case by simp
next
  case (Suc n)
  show ?case
  proof (cases "f c")
    case (Inl e')
    then show ?thesis using Suc.prems by auto
  next
    case (Inr r)
    obtain c1 y where r: "r = (c1, y)" by (cases r) auto
    have "I c1" using assms(1) [OF Suc.prems(1)] Inr r by simp
    moreover have "scan_n f c1 n = Inl e"
      using Suc.prems(2) Inr r by (auto split: sum.splits)
    ultimately show ?thesis using Suc.IH by blast
  qed
qed

lemma lax_scan_invariant:
  assumes "\<And>c c' y. I c \<Longrightarrow> f c = Inr (c', y) \<Longrightarrow> I c'"
    and "I c" and "lax_scan f c n = Inr (c', ys)"
  shows "I c' \<and> length ys = n"
proof -
  have "scan_n f c n = Inr (c', ys)"
    using assms(3) by (auto simp: lax_scan_def split: sum.splits)
  then show ?thesis using scan_n_invariant [of I f c n c' ys] assms(1,2) by blast
qed

lemma lax_scan_error:
  assumes "\<And>c c' y. I c \<Longrightarrow> f c = Inr (c', y) \<Longrightarrow> I c'"
    and "I c" and "lax_scan f c n = Inl e"
  shows "\<exists>c0. I c0 \<and> f c0 = Inl e"
proof (cases "f c")
  case (Inl e')
  then have "e' = e" using assms(3) by (simp add: lax_scan_def)
  then show ?thesis using Inl assms(2) by blast
next
  case (Inr r)
  then have "scan_n f c n = Inl e" using assms(3) by (simp add: lax_scan_def)
  then show ?thesis using scan_n_error [of I f c n e] assms(1,2) by blast
qed

lemma lax_scan_first_error:
  "f c = Inl e \<Longrightarrow> lax_scan f c n = Inl e"
  by (simp add: lax_scan_def)

lemma update_minbatch_frame:
  "population (update_minbatch C config ts b) = population ts
   \<and> curr_agent_idx (update_minbatch C config ts b) = curr_agent_idx ts
   \<and> other_agent_idcs (update_minbatch C config ts b) = other_agent_idcs ts
   \<and> step (update_minbatch C config ts b) = step ts + 1"
  by (simp add: update_minbatch_def Let_def split: prod.splits)

lemma foldl_update_minbatch_frame:
  "population (foldl (update_minbatch C config) ts bs) = population ts
   \<and> curr_agent_idx (foldl (update_minbatch C config) ts bs) = curr_agent_idx ts
   \<and> other_agent_idcs (foldl (update_minbatch C config) ts bs) = other_agent_idcs ts
   \<and> step (foldl (update_minbatch C config) ts bs) = step ts + length bs"
  by (induction bs arbitrary: ts) (simp_all add: update_minbatch_frame)

lemma length_reshape_minibatches: "length (reshape_minibatches n xs) = n"
  by (simp add: reshape_minibatches_def)

lemma length_make_minibatches: "length (make_minibatches p n b) = n"
  by (simp add: make_minibatches_def Let_def length_reshape_minibatches)

lemma update_epoch_mismatch:
  assumes "minibatch_size config * num_minibatches config \<noteq> num_steps config * num_actors config"
  shows "update_epoch C config us = Inl AssertionError"
  using assms by (simp add: update_epoch_def Let_def split: prod.splits)

lemma update_epoch_match:
  assumes "minibatch_size config * num_minibatches config = num_steps config * num_actors config"
  shows "\<exists>ts' rng'. update_epoch C config (ts, tb, adv, tgt, rng) = Inr ((ts', tb, adv, tgt, rng'), ())
     \<and> population ts' = population ts \<and> curr_agent_idx ts' = curr_agent_idx ts
     \<and> other_agent_idcs ts' = other_agent_idcs ts
     \<and> step ts' = step ts + num_minibatches config"
  using assms
  by (simp add: update_epoch_def Let_def foldl_update_minbatch_frame length_make_minibatches
      split: prod.splits)

lemma population_loop_Inr_dom:
  "population_loop C pop obs_batch idxs st = Inr st' \<Longrightarrow> set idxs \<subseteq> dom pop"
proof (induction idxs arbitrary: st)
  case Nil
  then show ?case by simp
next
  case (Cons i rest)
  obtain rng pi' v action log_prob actions_np action_probs_np
    where st: "st = (rng, pi', v, action, log_prob, actions_np, action_probs_np)"
    by (cases st) auto
  show ?case
  proof (cases "pop i")
    case None
    then show ?thesis using Cons.prems st by auto
  next
    case (Some member)
    then show ?thesis using Cons.prems Cons.IH st
      by (auto simp: Let_def split: prod.splits)
  qed
qed

lemma env_step_Inr_dom:
  assumes "env_step C config rs = Inr r"
  shows "{0..<population_size config} \<subseteq> dom (population (fst rs))"
  using assms
  by (auto simp: env_step_def Let_def split: prod.splits sum.splits
      dest!: population_loop_Inr_dom)

lemma env_step_missing:
  assumes "\<not> {0..<population_size config} \<subseteq> dom (population (fst rs))"
  shows "env_step C config rs = Inl KeyError"
proof (cases "env_step C config rs")
  case (Inl e)
  then show ?thesis using env_step_error [OF Inl] by simp
next
  case (Inr r)
  then show ?thesis using env_step_Inr_dom [OF Inr] assms by simp
qed

lemma scan_env_step:
  assumes "{0..<population_size config} \<subseteq> dom (population ts)"
  shows "\<exists>es' obs' rng' traj. lax_scan (env_step C config) (ts, es, obs, cnt, rng) n
           = Inr ((ts, es', obs', cnt, rng'), traj) \<and> length traj = n"
proof (cases "lax_scan (env_step C config) (ts, es, obs, cnt, rng) n")
  case (Inl e)
  let ?I = "\<lambda>c. fst c = ts \<and> fst (snd (snd (snd c))) = cnt"
  have "\<exists>c0. ?I c0 \<and> env_step C config c0 = Inl e"
    by (rule lax_scan_error [where I = ?I, OF _ _ Inl]) (use env_step_frame in fastforce)+
  then show ?thesis using env_step_error assms by metis
next
  case (Inr r)
  obtain c' traj where r: "r = (c', traj)" by (cases r) auto
  let ?I = "\<lambda>c. fst c = ts \<and> fst (snd (snd (snd c))) = cnt"
  have "?I c' \<and> length traj = n"
    by (rule lax_scan_invariant [where I = ?I and f = "env_step C config"
          and c = "(ts, es, obs, cnt, rng)"])
       (use env_step_frame Inr r in fastforce)+
  then show ?thesis using Inr r by (cases c') auto
qed

lemma scan_n_update_epoch:
  assumes "minibatch_size config * num_minibatches config = num_steps config * num_actors config"
  shows "\<exists>ts' rng' ys. scan_n (update_epoch C config) (ts, tb, adv, tgt, rng) n
           = Inr ((ts', tb, adv, tgt, rng'), ys)
     \<and> population ts' = population ts \<and> curr_agent_idx ts' = curr_agent_idx ts
     \<and> other_agent_idcs ts' = other_agent_idcs ts
     \<and> step ts' = step ts + n * num_minibatches config"
proof (induction n arbitrary: ts rng)
  case 0
  then show ?case by simp
next
  case (Suc n)
  obtain ts1 rng1 where 1: "update_epoch C config (ts, tb, adv, tgt, rng)
      = Inr ((ts1, tb, adv, tgt, rng1), ())"
    "population ts1 = population ts" "curr_agent_idx ts1 = curr_agent_idx ts"
    "other_agent_idcs ts1 = other_agent_idcs ts"
    "step ts1 = step ts + num_minibatches config"
    using update_epoch_match [OF assms, of C ts tb adv tgt rng] by blast
  obtain ts' rng' ys where 2: "scan_n (update_epoch C config) (ts1, tb, adv, tgt, rng1) n
           = Inr ((ts', tb, adv, tgt, rng'), ys)"
     "population ts' = population ts1" "curr_agent_idx ts' = curr_agent_idx ts1"
     "other_agent_idcs ts' = other_agent_idcs ts1"
     "step ts' = step ts1 + n * num_minibatches config"
    using Suc.IH [of ts1 rng1] by blast
  show ?case using 1 2 by simp
qed

lemma lax_scan_update_epoch:
  assumes "minibatch_size config * num_minibatches config = num_steps config * num_actors config"
  shows "\<exists>ts' rng' ys. lax_scan (update_epoch C config) (ts, tb, adv, tgt, rng) n
           = Inr ((ts', tb, adv, tgt, rng'), ys)
     \<and> population ts' = population ts \<and> curr_agent_idx ts' = curr_agent_idx ts
     \<and> other_agent_idcs ts' = other_agent_idcs ts
     \<and> step ts' = step ts + n * num_minibatches config"
  using scan_n_update_epoch [OF assms, of C ts tb adv tgt rng n]
    update_epoch_match [OF assms, of C ts tb adv tgt rng]
  by (auto simp: lax_scan_def)

lemma update_step_missing:
  assumes "\<not> {0..<population_size config} \<subseteq> dom (population (fst rs))"
  shows "update_step C config rs = Inl KeyError"
  using lax_scan_first_error [of "env_step C config" rs KeyError "num_steps config"]
    env_step_missing [OF assms, of C]
  by (simp add: update_step_def)

lemma update_step_mismatch:
  assumes "{0..<population_size config} \<subseteq> dom (population (fst rs))"
    and "minibatch_size config * num_minibatches config \<noteq> num_steps config * num_actors config"
  shows "update_step C config rs = Inl AssertionError"
proof -
  obtain ts es obs cnt rng where rs: "rs = (ts, es, obs, cnt, rng)" by (cases rs) auto
  have keys: "{0..<population_size config} \<subseteq> dom (population ts)"
    using assms(1) rs by simp
  obtain es' obs' rng' traj where sc: "lax_scan (env_step C config) rs (num_steps config)
           = Inr ((ts, es', obs', cnt, rng'), traj)"
    using scan_env_step [OF keys, of C es obs cnt rng "num_steps config"] rs by blast
  have ep: "lax_scan (update_epoch C config) us n = Inl AssertionError" for us n
    using lax_scan_first_error [of "update_epoch C config" us AssertionError n]
      update_epoch_mismatch [OF assms(2), of C us] by simp
  show ?thesis
    using sc ep by (simp add: update_step_def Let_def split: prod.splits)
qed

lemma update_step_match:
  assumes "{0..<population_size config} \<subseteq> dom (population ts)"
    and "minibatch_size config * num_minibatches config = num_steps config * num_actors config"
  shows "\<exists>ts' es' obs' rng' m. update_step C config (ts, es, obs, cnt, rng)
           = Inr ((ts', es', obs', int32 (cnt + 1), rng'), m)
     \<and> population ts' = population ts \<and> curr_agent_idx ts' = curr_agent_idx ts
     \<and> other_agent_idcs ts' = other_agent_idcs ts
     \<and> step ts' = step ts + update_epochs config * num_minibatches config"
proof -
  obtain es' obs' rng' traj where sc:
    "lax_scan (env_step C config) (ts, es, obs, cnt, rng) (num_steps config)
           = Inr ((ts, es', obs', cnt, rng'), traj)"
    using scan_env_step [OF assms(1), of C es obs cnt rng "num_steps config"] by blast
  obtain p lv where na: "network_apply C (params ts) (batchify obs') = (p, lv)"
    by (cases "network_apply C (params ts) (batchify obs')") auto
  obtain adv tgt where gae: "calculate_gae config traj lv = (adv, tgt)"
    by (cases "calculate_gae config traj lv") auto
  obtain ts' rng'' ys where ep:
    "lax_scan (update_epoch C config) (ts, traj, adv, tgt, rng') (update_epochs config)
       = Inr ((ts', traj, adv, tgt, rng''), ys)"
    "population ts' = population ts" "curr_agent_idx ts' = curr_agent_idx ts"
    "other_agent_idcs ts' = other_agent_idcs ts"
    "step ts' = step ts + update_epochs config * num_minibatches config"
    using lax_scan_update_epoch [OF assms(2), of C ts traj adv tgt rng' "update_epochs config"]
    by blast
  show ?thesis
    unfolding update_step_def sc
    using ep by (simp add: Let_def na gae)
qed

subsection \<open>What one collected timestep records\<close>

lemma env_step_Inr_elim:
  assumes "env_step C config (ts, es, obs, cnt, rng) = Inr (rs', tr)"
  obtains rng1 rsub1 p0 v0 rng2 p2 v2 a2 l2 anp apnp mixn ed nl nd rng3 rsub3
      obsv es' orig dn shaped info
  where "random_split C rng = (rng1, rsub1)"
    and "network_apply C (params ts) (batchify obs) = (p0, v0)"
    and "population_loop C (population ts) (batchify obs) [0..<population_size config]
           (rng1, p0, v0, pi_sample C rsub1 p0, pi_log_prob p0 (pi_sample C rsub1 p0),
            replicate (population_size config) (replicate (num_actors config) 0),
            replicate (population_size config)
              (replicate (num_actors config) (replicate 6 0)))
         = Inr (rng2, p2, v2, a2, l2, anp, apnp)"
    and "diversity (num_actors config) (curr_agent_idx ts) apnp p0 (pi_sample C rsub1 p0)
         = (mixn, ed, nl, nd)"
    and "random_split C rng2 = (rng3, rsub3)"
    and "vmap_env_step C (random_split_n C rsub3 (num_envs config)) es
           (unbatchify a2 (num_envs config)) = (obsv, es', orig, dn, shaped, info)"
    and "rs' = (ts, es', obsv, cnt, rng3)"
    and "tr = \<lparr> done_t = batchify dn, action_t = a2, value_t = v2,
                reward_t = batchify (total_reward config cnt orig shaped nl),
                log_prob_t = l2, obs_t = batchify obs, info_t = info,
                neg_logp_pop_new_t = nl, orig_reward_t = batchify orig,
                shaped_reward_t = batchify shaped, entropy_pop_delta_t = ed,
                neg_logp_pop_delta_t = nd \<rparr>"
  using assms
  by (auto simp: env_step_def Let_def split: prod.splits sum.splits)





subsection \<open>The loop of train\<close>

lemma init_population_dom:
  "dom (snd (init_population C idxs (rng, d))) = dom d \<union> set idxs"
proof (induction idxs arbitrary: rng d)
  case Nil
  then show ?case by simp
next
  case (Cons i rest)
  obtain r1 r2 where sp: "random_split C rng = (r1, r2)"
    by (cases "random_split C rng") auto
  have "dom (snd (init_population C (i # rest) (rng, d)))
      = dom (snd (init_population C rest (r1, d(i \<mapsto> network_init C r2))))"
    by (simp add: sp Let_def)
  also have "\<dots> = dom (d(i \<mapsto> network_init C r2)) \<union> set rest"
    by (rule Cons.IH)
  also have "\<dots> = dom d \<union> set (i # rest)" by auto
  finally show ?case .
qed

lemma train_init_Inr:
  assumes "train_init C config = Inr (key, (ts, es, obs, cnt, rng), old, m)"
  shows "key = random_PRNGKey C 0
    \<and> old = random_choice C (random_PRNGKey C 0) [0..<population_size config]
    \<and> dom (population ts) = {0..<population_size config}
    \<and> curr_agent_idx ts = old
    \<and> other_agent_idcs ts = filter (\<lambda>i. i \<noteq> old) [0..<population_size config]
    \<and> population ts old = Some (params ts)
    \<and> step ts = 0 \<and> cnt = 0 \<and> m = None"
proof -
  obtain r d where ip: "init_population C [0..<population_size config]
      (random_PRNGKey C (seed config), Map.empty) = (r, d)"
    by (cases "init_population C [0..<population_size config]
      (random_PRNGKey C (seed config), Map.empty)") auto
  have dom: "dom d = {0..<population_size config}"
    using init_population_dom [of C "[0..<population_size config]"
        "random_PRNGKey C (seed config)" Map.empty] ip by simp
  have "key = random_PRNGKey C 0
    \<and> old = random_choice C (random_PRNGKey C 0) [0..<population_size config]
    \<and> population ts = d
    \<and> curr_agent_idx ts = old
    \<and> other_agent_idcs ts = filter (\<lambda>i. i \<noteq> old) [0..<population_size config]
    \<and> population ts old = Some (params ts)
    \<and> step ts = 0 \<and> cnt = 0 \<and> m = None"
    using assms
    by (auto simp: train_init_def ip Let_def jax_random_choice_def
        split: if_splits option.splits prod.splits)
  then show ?thesis using dom by auto
qed

lemma train_init_error:
  assumes "train_init C config = Inl e"
  shows "(e = TypeError \<and> \<not> anneal_lr config)
    \<or> (e = ValueError \<and> anneal_lr config \<and> population_size config = 0)
    \<or> (e = KeyError \<and> anneal_lr config \<and> 0 < population_size config
        \<and> \<not> random_choice C (random_PRNGKey C 0) [0..<population_size config]
              < population_size config)"
proof -
  obtain r d where ip: "init_population C [0..<population_size config]
      (random_PRNGKey C (seed config), Map.empty) = (r, d)"
    by (cases "init_population C [0..<population_size config]
      (random_PRNGKey C (seed config), Map.empty)") auto
  have dom: "dom d = {0..<population_size config}"
    using init_population_dom [of C "[0..<population_size config]"
        "random_PRNGKey C (seed config)" Map.empty] ip by simp
  have none: "d k = None \<Longrightarrow> \<not> k < population_size config" for k
    using dom by (metis atLeastLessThan_iff domIff zero_le)
  show ?thesis
    using assms none
    by (auto simp: train_init_def ip Let_def jax_random_choice_def
        split: if_splits option.splits prod.splits)
qed

lemma update_step_Inr:
  assumes "update_step C config (ts, es, obs, cnt, rng) = Inr (rs', m)"
  shows "minibatch_size config * num_minibatches config = num_steps config * num_actors config
    \<and> {0..<population_size config} \<subseteq> dom (population ts)
    \<and> population (fst rs') = population ts
    \<and> curr_agent_idx (fst rs') = curr_agent_idx ts
    \<and> other_agent_idcs (fst rs') = other_agent_idcs ts
    \<and> step (fst rs') = step ts + update_epochs config * num_minibatches config
    \<and> fst (snd (snd (snd rs'))) = int32 (cnt + 1)"
proof -
  have keys: "{0..<population_size config} \<subseteq> dom (population ts)"
    using update_step_missing [of config "(ts, es, obs, cnt, rng)" C] assms by auto
  have match: "minibatch_size config * num_minibatches config
      = num_steps config * num_actors config"
    using update_step_mismatch [of config "(ts, es, obs, cnt, rng)" C] keys assms by auto
  show ?thesis
    using update_step_match [OF keys match, of C es obs cnt rng] assms keys match by auto
qed

lemma reinsert_and_checkout_Inr:
  assumes "reinsert_and_checkout idcs old new ts = Inr ts'"
  shows "population ts new \<noteq> None
    \<and> population ts' = (population ts)(old \<mapsto> params ts)
    \<and> params ts' = the (population ts new)
    \<and> curr_agent_idx ts' = new
    \<and> other_agent_idcs ts' = filter (\<lambda>i. i \<noteq> new) idcs
    \<and> step ts' = step ts \<and> opt_state ts' = opt_state ts"
  using assms
  by (auto simp: reinsert_and_checkout_def Let_def split: option.splits)

lemma train_iteration_Inr:
  assumes "train_iteration C config i (key, (ts, es, obs, cnt, rng), old, m)
             = Inr (key', (ts', es', obs', cnt', rng'), old', m')"
    and "pop_inv config ts old"
  shows "key' = fst (random_split C key)
    \<and> old' = random_choice C (snd (random_split C key)) [0..<population_size config]
    \<and> pop_inv config ts' old'
    \<and> cnt' = int32 (cnt + 1)
    \<and> step ts' = step ts + update_epochs config * num_minibatches config
    \<and> m' \<noteq> None"
proof -
  obtain k1 k2 where sp: "random_split C key = (k1, k2)"
    by (cases "random_split C key") auto
  obtain rs1 m1 where us: "update_step C config (ts, es, obs, cnt, rng) = Inr (rs1, m1)"
    using assms(1) by (auto simp: train_iteration_def Let_def sp split: sum.splits)
  obtain ts1 rest1 where rs1: "rs1 = (ts1, rest1)" by (cases rs1) auto
  note u = update_step_Inr [OF us]
  let ?idcs = "[0..<population_size config]"
  obtain new where ch: "jax_random_choice C k2 ?idcs = Inr new"
    using assms(1) by (auto simp: train_iteration_def Let_def sp us split: sum.splits)
  have new: "new = random_choice C k2 ?idcs"
    using ch by (auto simp: jax_random_choice_def split: if_splits)
  obtain ts2 where rc: "reinsert_and_checkout ?idcs old new ts1 = Inr ts2"
    using assms(1) by (auto simp: train_iteration_def Let_def sp us ch rs1 split: sum.splits)
  note r = reinsert_and_checkout_Inr [OF rc]
  have res: "key' = k1" "ts' = ts2" "old' = new" "m' = Some m1"
    "(es', obs', cnt', rng') = rest1"
    using assms(1)
    by (auto simp: train_iteration_def Let_def sp us ch rs1 rc split: if_splits)
  have dom1: "dom (population ts1) = {0..<population_size config}"
    using u assms(2) by (simp add: rs1 pop_inv_def)
  have oldlt: "old < population_size config" using assms(2) by (simp add: pop_inv_def)
  have newlt: "new < population_size config"
    using r dom1 by (metis atLeastLessThan_iff domIff)
  have dom2: "dom (population ts2) = {0..<population_size config}"
    using r dom1 oldlt by auto
  have "pop_inv config ts2 new"
    using dom2 newlt r by (simp add: pop_inv_def)
  moreover have "cnt' = int32 (cnt + 1)" using u res(5) rs1 by auto
  moreover have "step ts2 = step ts + update_epochs config * num_minibatches config"
    using u r rs1 by simp
  ultimately show ?thesis using res sp new by simp
qed

lemma train_init_draw:
  "(case train_init C config of
      Inl e \<Rightarrow> Inl e
    | Inr (key, runner_state, old, m) \<Rightarrow> Inr (key, old)) = draw_initial C config"
proof -
  obtain r d where ip: "init_population C [0..<population_size config]
      (random_PRNGKey C (seed config), Map.empty) = (r, d)"
    by (cases "init_population C [0..<population_size config]
      (random_PRNGKey C (seed config), Map.empty)") auto
  have dom: "dom d = {0..<population_size config}"
    using init_population_dom [of C "[0..<population_size config]"
        "random_PRNGKey C (seed config)" Map.empty] ip by simp
  let ?idx = "random_choice C (random_PRNGKey C 0) [0..<population_size config]"
  have none: "d ?idx = None \<longleftrightarrow> \<not> ?idx < population_size config"
    using dom by (metis atLeastLessThan_iff domIff zero_le)
  show ?thesis
  proof (cases "d ?idx")
    case None
    then show ?thesis using none
      by (simp add: train_init_def draw_initial_def ip Let_def jax_random_choice_def)
  next
    case (Some p)
    then have "?idx < population_size config" using none by simp
    then show ?thesis using Some
      by (simp add: train_init_def draw_initial_def ip Let_def jax_random_choice_def
          split: prod.splits)
  qed
qed

lemma train_iteration_draw:
  assumes "pop_inv config ts old"
  shows "(case train_iteration C config i (key, (ts, es, obs, cnt, rng), old, m) of
      Inl e \<Rightarrow> Inl e
    | Inr (key', runner_state, old', m') \<Rightarrow> Inr (key', old')) = draw_next C config key"
proof -
  have keys: "{0..<population_size config} \<subseteq> dom (population ts)"
    and dom: "dom (population ts) = {0..<population_size config}"
    and oldlt: "old < population_size config"
    using assms by (simp_all add: pop_inv_def)
  obtain k1 k2 where sp: "random_split C key = (k1, k2)"
    by (cases "random_split C key") auto
  show ?thesis
  proof (cases "minibatch_size config * num_minibatches config
      = num_steps config * num_actors config")
    case False
    have "update_step C config (ts, es, obs, cnt, rng) = Inl AssertionError"
      using update_step_mismatch [of config "(ts, es, obs, cnt, rng)" C] keys False by simp
    then show ?thesis using False
      by (simp add: train_iteration_def draw_next_def Let_def sp)
  next
    case True
    obtain ts1 es1 obs1 rng1 m1 where us:
      "update_step C config (ts, es, obs, cnt, rng)
         = Inr ((ts1, es1, obs1, int32 (cnt + 1), rng1), m1)"
      and p1: "population ts1 = population ts"
      using update_step_match [OF keys True, of C es obs cnt rng] by blast
    have ne: "[0..<population_size config] \<noteq> []" using oldlt by auto
    let ?idx = "random_choice C k2 [0..<population_size config]"
    have none: "population ts1 ?idx = None \<longleftrightarrow> \<not> ?idx < population_size config"
      using dom p1 by (metis atLeastLessThan_iff domIff zero_le)
    show ?thesis
    proof (cases "population ts1 ?idx")
      case None
      then show ?thesis using True ne none
        by (simp add: train_iteration_def draw_next_def Let_def sp us jax_random_choice_def
            reinsert_and_checkout_def)
    next
      case (Some p)
      then have "?idx < population_size config" using none by simp
      then show ?thesis using True ne Some
        by (simp add: train_iteration_def draw_next_def Let_def sp us jax_random_choice_def
            reinsert_and_checkout_def)
    qed
  qed
qed

lemma train_loop_inv:
  assumes "train_loop C config n = Inr (key, (ts, es, obs, cnt, rng), old, m)"
  shows "pop_inv config ts old
    \<and> step ts = n * (update_epochs config * num_minibatches config)"
  using assms
proof (induction n arbitrary: key ts es obs cnt rng old m)
  case 0
  then have ti: "train_init C config = Inr (key, (ts, es, obs, cnt, rng), old, m)" by simp
  note t = train_init_Inr [OF ti]
  have "old \<in> dom (population ts)" using t by auto
  then have "old < population_size config" using t by simp
  then show ?case using t by (simp add: pop_inv_def)
next
  case (Suc n)
  obtain vars where prev: "train_loop C config n = Inr vars"
    using Suc.prems by (auto split: sum.splits)
  obtain key0 ts0 es0 obs0 cnt0 rng0 old0 m0
    where vars: "vars = (key0, (ts0, es0, obs0, cnt0, rng0), old0, m0)"
    by (cases vars) auto
  have ih: "pop_inv config ts0 old0"
    "step ts0 = n * (update_epochs config * num_minibatches config)"
    using Suc.IH [OF prev [unfolded vars]] by simp_all
  have it: "train_iteration C config n (key0, (ts0, es0, obs0, cnt0, rng0), old0, m0)
      = Inr (key, (ts, es, obs, cnt, rng), old, m)"
    using Suc.prems prev vars by simp
  have a: "pop_inv config ts old"
    and c: "step ts = step ts0 + update_epochs config * num_minibatches config"
    using train_iteration_Inr [OF it ih(1)] by blast+
  show ?case using a c ih(2) by (simp add: algebra_simps)
qed

lemma train_loop_draw:
  "(case train_loop C config n of
      Inl e \<Rightarrow> Inl e
    | Inr (key, runner_state, old, m) \<Rightarrow> Inr (key, old)) = draw_trace C config n"
proof (induction n)
  case 0
  then show ?case by (simp add: train_init_draw)
next
  case (Suc n)
  show ?case
  proof (cases "train_loop C config n")
    case (Inl e)
    have "draw_trace C config n = Inl e" using Suc [symmetric] Inl by simp
    then show ?thesis using Inl by simp
  next
    case (Inr vars)
    obtain key0 ts0 es0 obs0 cnt0 rng0 old0 m0
      where vars: "vars = (key0, (ts0, es0, obs0, cnt0, rng0), old0, m0)"
      by (cases vars) auto
    have inv: "pop_inv config ts0 old0"
      using train_loop_inv [OF Inr [unfolded vars]] by simp
    have "draw_trace C config n = Inr (key0, old0)"
      using Suc [symmetric] Inr vars by simp
    then show ?thesis
      using train_iteration_draw [OF inv, of C n key0 es0 obs0 cnt0 rng0 m0] Inr vars
      by simp
  qed
qed

lemma draw_next_seed: "draw_next C (config \<lparr>seed := s\<rparr>) key = draw_next C config key"
  by (simp add: draw_next_def Let_def split: prod.splits)

lemma draw_trace_seed: "draw_trace C (config \<lparr>seed := s\<rparr>) n = draw_trace C config n"
  by (induction n) (simp_all add: draw_initial_def draw_next_seed split: sum.splits prod.splits)

lemma post_init_seed:
  "post_init (config \<lparr>seed := s\<rparr>)
     = (case post_init config of Inl e \<Rightarrow> Inl e | Inr c \<Rightarrow> Inr (c \<lparr>seed := s\<rparr>))"
  by (simp add: post_init_def)

subsection \<open>Draws and the population across iterations\<close>

lemma upt2: "[0..<2] = [0, 1]" by (simp add: upt_rec)

lemma toy_keys:
  "random_PRNGKey toy s = nat \<bar>s\<bar>"
  "random_split toy k = (2 * k + 1, 3 * k + 1)"
  "random_split_n toy k n = map (\<lambda>i. k + i) [0..<n]"
  by (simp_all add: toy_def)

lemma toy_choice2: "random_choice toy k [0, Suc 0] = k mod 2"
proof -
  have 1: "random_choice toy k [0, Suc 0] = [0, Suc 0] ! (k mod length [0::nat, Suc 0])"
    by (simp add: toy_def)
  have 2: "length [0::nat, Suc 0] = 2" by simp
  have "k mod 2 = 0 \<or> k mod 2 = 1" by auto
  then have 3: "[0, Suc 0] ! (k mod 2) = k mod 2" by auto
  show ?thesis unfolding 1 2 by (rule 3)
qed

lemmas toy_draw_simps = draw_initial_def draw_next_def demo_config_def demo_config0_def
  toy_keys toy_choice2 upt2 Let_def

lemma draw_trace_toy_0: "draw_trace toy demo_config 0 = Inr (0, 0)"
  by (simp add: toy_draw_simps)

lemma draw_trace_toy_1: "draw_trace toy demo_config (Suc 0) = Inr (1, 1)"
  by (simp add: draw_trace_toy_0) (simp add: toy_draw_simps)

lemma draw_trace_toy: "draw_trace toy demo_config 2 = Inr (3, 0)"
proof -
  have "draw_trace toy demo_config (Suc (Suc 0)) = Inr (3, 0)"
    by (simp add: draw_trace_toy_1) (simp add: toy_draw_simps)
  then show ?thesis by (simp only: numeral_2_eq_2)
qed

text \<open>
  C10. Two runs whose configurations differ only in the seed draw the same sequence of
  trainee indices (the initial pick and the draw of every iteration), and where one run
  stops with an exception the other stops with the same one: the draws come from
  \<^verbatim>\<open>PRNGKey(0)\<close> and its splits, never from \<^verbatim>\<open>config.seed\<close>.
\<close>

theorem seed_independent_draws:
  "drawn_indices C (config0 \<lparr>seed := s1\<rparr>) = drawn_indices C (config0 \<lparr>seed := s2\<rparr>)"
proof -
  have idx: "trainee_index C config n
      = (case draw_trace C config n of Inl e \<Rightarrow> Inl e | Inr (key, i) \<Rightarrow> Inr i)"
    for config n
    unfolding trainee_index_def train_loop_draw [of C config n, symmetric]
    by (simp split: sum.splits prod.splits)
  have "trainee_index C (c \<lparr>seed := s\<rparr>) n = trainee_index C c n" for c s n
    by (simp add: idx draw_trace_seed)
  then show ?thesis
    by (simp add: drawn_indices_def post_init_seed split: sum.splits)
qed

text \<open>
  C7. After any number of iterations of the loop of \<^verbatim>\<open>train\<close>, the population
  dictionary has exactly the keys \<open>0..population_size-1\<close>, the current trainee index is
  one of them and is not among the other indices, and the other indices are the
  function \<open>filter (\<lambda>i. i \<noteq> trainee) [0..<population_size]\<close> of the population size and
  the trainee index alone, so computing them twice gives the same ordered list.
\<close>

theorem population_invariant:
  assumes "train_loop C config n = Inr (key, (ts, es, obs, cnt, rng), old, m)"
  shows "dom (population ts) = {0..<population_size config}
    \<and> curr_agent_idx ts < population_size config
    \<and> curr_agent_idx ts \<notin> set (other_agent_idcs ts)
    \<and> other_agent_idcs ts
        = filter (\<lambda>i. i \<noteq> curr_agent_idx ts) [0..<population_size config]"
  using train_loop_inv [OF assms] by (auto simp: pop_inv_def)

theorem population_invariant_witness:
  "\<exists>ts es obs cnt rng m.
      train_loop toy demo_config 2 = Inr (3, (ts, es, obs, cnt, rng), 0, m)
    \<and> dom (population ts) = {0..<2}
    \<and> curr_agent_idx ts < 2
    \<and> curr_agent_idx ts \<notin> set (other_agent_idcs ts)
    \<and> other_agent_idcs ts = filter (\<lambda>i. i \<noteq> curr_agent_idx ts) [0..<2]"
proof -
  have "(case train_loop toy demo_config 2 of
      Inl e \<Rightarrow> Inl e
    | Inr (key, runner_state, old, m) \<Rightarrow> Inr (key, old)) = Inr (3, 0)"
    using train_loop_draw [of toy demo_config 2] draw_trace_toy by simp
  then obtain ts es obs cnt rng m
    where run: "train_loop toy demo_config 2 = Inr (3, (ts, es, obs, cnt, rng), 0, m)"
    by (auto split: sum.splits prod.splits)
  have N: "population_size demo_config = 2"
    by (simp add: demo_config_def demo_config0_def)
  show ?thesis
    using population_invariant [OF run] run unfolding N by blast
qed

subsection \<open>Learning rate and reward shaping\<close>

text \<open>
  C5, as stated, fails: after one completed minibatch step the schedule still returns the
  full base rate, not the base rate times \<open>1 - 1 / (num_updates * update_epochs *
  num_minibatches)\<close>.
\<close>

theorem linear_schedule_claimed_counterexample:
  "linear_schedule demo_config 1
     \<noteq> lr demo_config * (1 - 1 / real (num_updates demo_config * update_epochs demo_config
                                       * num_minibatches demo_config))"
  by (simp add: linear_schedule_def demo_config_def demo_config0_def)

text \<open>
  C5, amended. The learning rate at a gradient update is the base rate times
  \<open>1 - \<lfloor>count / (num_minibatches * update_epochs)\<rfloor> / num_updates\<close>: throughout
  iteration \<open>i\<close> (counts \<open>i * (num_minibatches * update_epochs) + j\<close> with \<open>j\<close> below the
  number of minibatch steps of one iteration) it is the base rate times
  \<open>1 - i / num_updates\<close>; at the first minibatch step of an iteration this is the
  claim's \<open>1 - count / (num_updates * update_epochs * num_minibatches)\<close>; and the
  optimizer's count after \<open>i\<close> iterations of the loop is \<open>i * update_epochs *
  num_minibatches\<close>.
\<close>

theorem linear_schedule_by_iteration:
  assumes "j < num_minibatches config * update_epochs config"
  shows "linear_schedule config (i * (num_minibatches config * update_epochs config) + j)
           = lr config * (1 - real i / real (num_updates config))
    \<and> linear_schedule config (i * (num_minibatches config * update_epochs config))
           = lr config * (1 - real (i * (num_minibatches config * update_epochs config))
                               / real (num_updates config * update_epochs config
                                       * num_minibatches config))
    \<and> (train_loop C config i = Inr (key, (ts, es, obs, cnt, rng), old, m)
         \<longrightarrow> step ts = i * (update_epochs config * num_minibatches config))"
proof -
  have pos: "0 < num_minibatches config * update_epochs config"
    using assms by (metis gr_zeroI not_less_zero)
  show ?thesis
    using ls_iter [OF assms, of i] ls_boundary [OF pos, of i] train_loop_inv [of C config i]
    by blast
qed

theorem linear_schedule_by_iteration_witness:
  "linear_schedule demo_config 3 = 1 / 2 \<and> linear_schedule demo_config 2 = 1 / 2"
proof -
  have j: "(1::nat) < num_minibatches demo_config * update_epochs demo_config"
    by (simp add: demo_config_def demo_config0_def)
  have M: "num_minibatches demo_config * update_epochs demo_config = 2"
    and U: "num_updates demo_config = 2" and L: "lr demo_config = 1"
    and E: "update_epochs demo_config = 1" and N: "num_minibatches demo_config = 2"
    by (simp_all add: demo_config_def demo_config0_def)
  have a: "linear_schedule demo_config (1 * 2 + 1) = 1 * (1 - real 1 / real 2)"
    using linear_schedule_by_iteration [OF j, of 1, THEN conjunct1] unfolding M U L .
  have b: "linear_schedule demo_config (1 * (2 * 1))
      = 1 * (1 - real (1 * (2 * 1)) / real (2 * 1 * 2))"
    using linear_schedule_by_iteration [OF j, of 1, THEN conjunct2, THEN conjunct1]
    unfolding U L E N .
  show ?thesis using a b by simp
qed





subsection \<open>The code at concrete inputs\<close>

lemma upt6: "[0..<6] = [0, 1, 2, 3, 4, 5]" by (simp add: upt_rec)
lemma upt4: "[0..<4] = [0, 1, 2, 3]" by (simp add: upt_rec)
lemma upt3: "[0..<3] = [0, 1, 2]" by (simp add: upt_rec)
lemma replicate4: "replicate 4 x = [x, x, x, x]" by (simp add: numeral_eq_Suc)
lemma replicate6: "replicate 6 x = [x, x, x, x, x, x]" by (simp add: numeral_eq_Suc)
lemma replicate2: "replicate 2 x = [x, x]" by (simp add: numeral_eq_Suc)

lemma int32_0: "int32 0 = 0"
  by (simp add: int32_def)

lemmas toy_eval = env_step_def demo_runner_state_def demo_train_state_def demo_obs_def
  demo_config_def demo_config0_def batchify_def upt2 upt3 upt4 upt6 replicate2 replicate4
  replicate6 toy_def Let_def toy_probs_def toy_mode_def pi_log_prob_def diversity_def
  jnp_delete_def mean_axis0_def entropy_def jnp_take_def vsub_def unbatchify_def
  total_reward_def rew_shaping_anneal_def optax_linear_schedule_def int32_0




text \<open>
  C3, on the code. The trainee is member 0, its slot holds the parameters 0 it was
  checked out with, and training has produced the parameters 7. When the new draw is 0
  again, the rotation writes 7 into slot 0 but hands out the parameters 0 that it read
  from the slot before the write: the new trainee's parameters are not the
  population's entry at the new index after the reinsertion.
\<close>

theorem rotation_same_index:
  "\<exists>ts'. reinsert_and_checkout [0, 1] 0 0 (demo_train_state \<lparr>params := 7\<rparr>) = Inr ts'
     \<and> curr_agent_idx ts' = 0
     \<and> population ts' 0 = Some 7
     \<and> params ts' = 0"
  by (simp add: reinsert_and_checkout_def demo_train_state_def Let_def)

text \<open>
  C1, on the code. With two members and the trainee's parameters 0, the trainee's policy
  samples the actions \<open>[0, 2, 4, 1]\<close> and its value estimates are \<open>[0, 2, 4, 1]\<close>; the
  loop over the population then reassigns \<^verbatim>\<open>action\<close>, \<^verbatim>\<open>value\<close> and \<^verbatim>\<open>log_prob\<close>, and
  the environment is stepped with, and the transition records, the actions
  \<open>[1, 3, 5, 2]\<close>, the values and the log-probabilities of the last member (parameters 1).
\<close>

theorem env_step_records_last_member:
  "\<exists>ts' es' obs' cnt' rng' tr.
      env_step toy demo_config demo_runner_state = Inr ((ts', es', obs', cnt', rng'), tr)
    \<and> pi_sample toy (snd (random_split toy 7))
          (fst (network_apply toy (params demo_train_state) (batchify demo_obs)))
        = [0, 2, 4, 1]
    \<and> snd (network_apply toy (params demo_train_state) (batchify demo_obs)) = [0, 2, 4, 1]
    \<and> action_t tr = [1, 3, 5, 2]
    \<and> es' = [1, 3, 5, 2]
    \<and> value_t tr = [1, 3, 5, 2]
    \<and> log_prob_t tr
        = pi_log_prob (fst (network_apply toy 1 (batchify demo_obs))) [1, 3, 5, 2]"
  by (simp add: toy_eval)

lemma ln_tenth_neq: "ln (1 / 10 :: real) \<noteq> ln (3 / 10)"
  by simp

text \<open>
  C2, on the code. For actor 2 (agent 1 in environment 0) the bonus added to the shaped
  reward is \<open>ent_pop_coeff * (- ln (1/10))\<close>: \<^verbatim>\<open>jnp.take\<close> reads the flattened mix at
  the index of actor 1's action, which is an entry of actor 0's row, and that one scalar
  is broadcast to every environment of agent 1. Actor 2's own row of the mix with the
  trainee gives probability \<open>3/10\<close> to its sampled action 4 (and to the recorded action
  5), so the claim's bonus is \<open>ent_pop_coeff * (- ln (3/10))\<close>, a different number.
\<close>

theorem diversity_bonus_at_demo:
  "\<exists>rs' tr.
      env_step toy demo_config demo_runner_state = Inr (rs', tr)
    \<and> reward_t tr ! 2
        = orig_reward_t tr ! 2 + shaped_reward_t tr ! 2 * rew_shaping_anneal demo_config 0
          + ent_pop_coeff demo_config * (- ln (1 / 10))
    \<and> mean_axis0 4 [fst (network_apply toy 1 (batchify demo_obs)),
                     fst (network_apply toy 0 (batchify demo_obs))] ! 2
        = [1 / 10, 1 / 10, 1 / 10, 1 / 10, 3 / 10, 3 / 10]
    \<and> ent_pop_coeff demo_config * (- ln (1 / 10))
        \<noteq> ent_pop_coeff demo_config * (- ln (3 / 10))"
  by (simp add: toy_eval)

subsection \<open>The batch-size check and the minibatches\<close>

lemma post_init_Inr:
  assumes "post_init config0 = Inr config"
  shows "0 < num_steps config \<and> 0 < num_envs config \<and> 0 < num_minibatches config
    \<and> num_actors config = 2 * num_envs config
    \<and> minibatch_size config = num_actors config * num_steps config div num_minibatches config
    \<and> num_updates config = total_timesteps config0 div num_steps config0 div num_envs config0"
  using assms by (auto simp: post_init_def split: if_splits)

lemma concat_chunks:
  "n * k \<le> length xs \<Longrightarrow>
     concat (map (\<lambda>j. take k (drop (j * k) xs)) [0..<n]) = take (n * k) xs"
proof (induction n)
  case 0
  then show ?case by simp
next
  case (Suc n)
  then have ih: "concat (map (\<lambda>j. take k (drop (j * k) xs)) [0..<n]) = take (n * k) xs"
    by simp
  have "concat (map (\<lambda>j. take k (drop (j * k) xs)) [0..<Suc n])
      = take (n * k) xs @ take k (drop (n * k) xs)"
    by (simp add: ih)
  also have "\<dots> = take (n * k + k) xs" by (rule take_add [symmetric])
  also have "n * k + k = Suc n * k" by simp
  finally show ?case .
qed

lemma concat_reshape_minibatches:
  assumes "n dvd length xs" and "0 < n"
  shows "concat (reshape_minibatches n xs) = xs"
proof -
  have "n * (length xs div n) = length xs" using assms by simp
  then show ?thesis
    using concat_chunks [of n "length xs div n" xs] by (simp add: reshape_minibatches_def)
qed

lemma length_chunk_reshape_minibatches:
  assumes "n dvd length xs" and "mb \<in> set (reshape_minibatches n xs)"
  shows "length mb = length xs div n"
proof -
  obtain j where j: "j < n" and mb: "mb = take (length xs div n) (drop (j * (length xs div n)) xs)"
    using assms(2) by (auto simp: reshape_minibatches_def)
  have "n * (length xs div n) = length xs" using assms(1) by simp
  moreover have "Suc j * (length xs div n) \<le> n * (length xs div n)"
    using j by (intro mult_le_mono1) simp
  ultimately have "j * (length xs div n) + length xs div n \<le> length xs" by simp
  then show ?thesis by (simp add: mb)
qed

lemma reshape_minibatches_map:
  "reshape_minibatches n (map f xs) = map (map f) (reshape_minibatches n xs)"
  by (simp add: reshape_minibatches_def take_map drop_map)

lemma make_minibatches_positions:
  "make_minibatches perm n batch
     = map (map (\<lambda>i. concat batch ! i)) (reshape_minibatches n perm)"
  by (simp add: make_minibatches_def Let_def reshape_minibatches_map)

lemma train_iteration_Inr_match:
  assumes "train_iteration C config i vars = Inr vars'"
  shows "minibatch_size config * num_minibatches config = num_steps config * num_actors config"
proof -
  obtain key ts es obs cnt rng old m
    where vars: "vars = (key, (ts, es, obs, cnt, rng), old, m)"
    by (cases vars) auto
  obtain rs1 m1 where us: "update_step C config (ts, es, obs, cnt, rng) = Inr (rs1, m1)"
    using assms unfolding vars
    by (auto simp: train_iteration_def Let_def split: sum.splits prod.splits)
  show ?thesis using update_step_Inr [OF us] by simp
qed

lemma train_loop_error_stays:
  "train_loop C config n = Inl e \<Longrightarrow> train_loop C config (n + k) = Inl e"
  by (induction k) simp_all

lemma train_loop_first_iteration_mismatch:
  assumes "minibatch_size config * num_minibatches config
      \<noteq> num_steps config * num_actors config"
    and "train_loop C config 0 = Inr vars"
  shows "train_loop C config (Suc 0) = Inl AssertionError"
proof -
  obtain key ts es obs cnt rng old m
    where vars: "vars = (key, (ts, es, obs, cnt, rng), old, m)"
    by (cases vars) auto
  have inv: "pop_inv config ts old"
    using train_loop_inv [OF assms(2) [unfolded vars]] by simp
  have "draw_next C config key = Inl AssertionError"
    using assms(1) by (simp add: draw_next_def)
  then have "train_iteration C config 0 vars = Inl AssertionError"
    using train_iteration_draw [OF inv, of C 0 key es obs cnt rng m] vars
    by (auto split: sum.splits)
  then show ?thesis using assms(2) by simp
qed

text \<open>
  C4, amended. After \<^verbatim>\<open>__post_init__\<close> the asserted equality fails exactly when
  \<open>num_minibatches\<close> does not divide \<open>num_steps * num_actors\<close>. Then no iteration of the
  loop ever completes, and a run that reaches its loop with at least one update to do
  ends in the \<^verbatim>\<open>AssertionError\<close> of \<^verbatim>\<open>_update_epoch\<close>, raised while the first update
  step is traced. When the equality holds, a batch of \<open>num_steps * num_actors\<close> entries,
  reordered by a permutation of its positions, is cut into \<open>num_minibatches\<close>
  minibatches of \<open>minibatch_size > 0\<close> entries each, whose positions, read one after the
  other, are the permutation: every position lies in exactly one minibatch.
\<close>

theorem batch_size_check:
  assumes "post_init config0 = Inr config"
  shows "(minibatch_size config * num_minibatches config
            \<noteq> num_steps config * num_actors config
          \<longleftrightarrow> \<not> num_minibatches config dvd num_steps config * num_actors config)
    \<and> (minibatch_size config * num_minibatches config
            \<noteq> num_steps config * num_actors config \<longrightarrow>
          (\<forall>n vars. train_loop C config (Suc n) \<noteq> Inr vars)
          \<and> (\<forall>vars. train_loop C config 0 = Inr vars \<and> 0 < num_updates config
                \<longrightarrow> train C config0 = Inl AssertionError))
    \<and> (minibatch_size config * num_minibatches config
            = num_steps config * num_actors config
          \<and> length (concat batch) = num_steps config * num_actors config
          \<and> distinct perm \<and> set perm = {0..<length (concat batch)} \<longrightarrow>
          0 < minibatch_size config
          \<and> length (make_minibatches perm (num_minibatches config) batch)
              = num_minibatches config
          \<and> (\<forall>mb \<in> set (make_minibatches perm (num_minibatches config) batch).
                length mb = minibatch_size config)
          \<and> make_minibatches perm (num_minibatches config) batch
              = map (map (\<lambda>i. concat batch ! i))
                  (reshape_minibatches (num_minibatches config) perm)
          \<and> concat (reshape_minibatches (num_minibatches config) perm) = perm)"
proof -
  note p = post_init_Inr [OF assms]
  let ?M = "num_minibatches config"
  let ?B = "num_steps config * num_actors config"
  have Mpos: "0 < ?M" and Bpos: "0 < ?B" using p by simp_all
  have ms: "minibatch_size config = ?B div ?M" using p by (simp add: mult.commute)
  have char: "minibatch_size config * ?M \<noteq> ?B \<longleftrightarrow> \<not> ?M dvd ?B"
    unfolding ms using Mpos by (metis dvd_div_mult_self dvd_triv_right)
  have mism: "(\<forall>n vars. train_loop C config (Suc n) \<noteq> Inr vars)
          \<and> (\<forall>vars. train_loop C config 0 = Inr vars \<and> 0 < num_updates config
                \<longrightarrow> train C config0 = Inl AssertionError)"
    if mm: "minibatch_size config * ?M \<noteq> ?B"
  proof (intro conjI allI impI)
    fix n vars
    show "train_loop C config (Suc n) \<noteq> Inr vars"
      using train_iteration_Inr_match [of C config n _ vars] mm
      by (auto split: sum.splits)
  next
    fix vars
    assume a: "train_loop C config 0 = Inr vars \<and> 0 < num_updates config"
    then have 1: "train_loop C config (Suc 0) = Inl AssertionError"
      using train_loop_first_iteration_mismatch [OF mm] by blast
    obtain k where k: "num_updates config = Suc 0 + k"
      using a by (metis Suc_pred add_Suc plus_nat.add_0)
    have "train_loop C config (num_updates config) = Inl AssertionError"
      unfolding k by (rule train_loop_error_stays [OF 1])
    then show "train C config0 = Inl AssertionError"
      by (simp add: train_def assms)
  qed
  have ok: "0 < minibatch_size config
          \<and> length (make_minibatches perm ?M batch) = ?M
          \<and> (\<forall>mb \<in> set (make_minibatches perm ?M batch). length mb = minibatch_size config)
          \<and> make_minibatches perm ?M batch
              = map (map (\<lambda>i. concat batch ! i)) (reshape_minibatches ?M perm)
          \<and> concat (reshape_minibatches ?M perm) = perm"
    if m: "minibatch_size config * ?M = ?B"
      and len: "length (concat batch) = ?B"
      and d: "distinct perm" and sp: "set perm = {0..<length (concat batch)}"
  proof -
    have lp: "length perm = ?B"
      using d sp len by (metis card_atLeastLessThan diff_zero distinct_card)
    have dv: "?M dvd length perm" using m lp by (metis dvd_triv_right)
    have mspos: "0 < minibatch_size config" using m Bpos by (metis mult_is_0 neq0_conv)
    have chunk: "length perm div ?M = minibatch_size config"
      using lp ms by simp
    have lens: "\<forall>mb \<in> set (make_minibatches perm ?M batch). length mb = minibatch_size config"
      using length_chunk_reshape_minibatches [OF dv] chunk
      by (auto simp: make_minibatches_positions)
    show ?thesis
      using mspos lens length_make_minibatches [of perm ?M batch]
        make_minibatches_positions [of perm ?M batch]
        concat_reshape_minibatches [OF dv Mpos]
      by blast
  qed
  show ?thesis using char mism ok by blast
qed

lemma post_init_demo:
  "post_init demo_config0 = Inr demo_config"
  "post_init demo_bad0
     = Inr (demo_bad0 \<lparr>num_actors := 4, num_updates := 2, minibatch_size := 1\<rparr>)"
  "post_init demo_short0
     = Inr (demo_short0 \<lparr>num_actors := 4, num_updates := 0, minibatch_size := 1\<rparr>)"
  by (simp_all add: post_init_def demo_config_def demo_config0_def demo_bad0_def
      demo_short0_def)

lemma train_init_toy_ok:
  assumes "anneal_lr config" and "population_size config = 2"
  shows "\<exists>rs. train_init toy config = Inr (0, rs, 0, None)"
proof -
  have "draw_initial toy config = Inr (0, 0)"
    using assms by (simp add: draw_initial_def toy_keys toy_choice2 upt2 Let_def)
  then obtain rs m where ti: "train_init toy config = Inr (0, rs, 0, m)"
    using train_init_draw [of toy config] by (auto split: sum.splits prod.splits)
  obtain ts es obs cnt rng where rs: "rs = (ts, es, obs, cnt, rng)" by (cases rs) auto
  have "m = None" using train_init_Inr [OF ti [unfolded rs]] by simp
  then show ?thesis using ti by blast
qed

text \<open>
  C4, as stated, fails: with a timestep budget below one iteration (\<open>num_updates = 0\<close>)
  the loop body, and with it the assertion, is never reached; the mismatching
  configuration is not rejected and \<^verbatim>\<open>train\<close> ends at its \<^verbatim>\<open>return\<close> on the unbound
  \<^verbatim>\<open>metric\<close>.
\<close>

theorem batch_check_not_reached:
  "\<exists>config. post_init demo_short0 = Inr config
     \<and> minibatch_size config * num_minibatches config
         \<noteq> num_steps config * num_actors config
     \<and> train toy demo_short0 = Inl UnboundLocalError"
proof -
  define c where "c = demo_short0 \<lparr>num_actors := 4, num_updates := 0, minibatch_size := 1\<rparr>"
  have pi: "post_init demo_short0 = Inr c"
    unfolding c_def by (rule post_init_demo(3))
  have a: "anneal_lr c" and n: "population_size c = 2" and u: "num_updates c = 0"
    and mm: "minibatch_size c * num_minibatches c \<noteq> num_steps c * num_actors c"
    by (simp_all add: c_def demo_short0_def demo_config0_def)
  obtain rs where ti: "train_init toy c = Inr (0, rs, 0, None)"
    using train_init_toy_ok [OF a n] by blast
  have "train toy demo_short0 = Inl UnboundLocalError"
    by (simp add: train_def pi u ti)
  then show ?thesis using pi mm by blast
qed

theorem batch_size_check_witness:
  "train toy demo_bad0 = Inl AssertionError
   \<and> length (make_minibatches [3, 2, 1, 0] 2 [[10, 11, 12, 13 :: nat]]) = 2
   \<and> make_minibatches [3, 2, 1, 0] 2 [[10, 11, 12, 13 :: nat]]
       = map (map (\<lambda>i. concat [[10, 11, 12, 13]] ! i)) (reshape_minibatches 2 [3, 2, 1, 0])
   \<and> concat (reshape_minibatches 2 [3, 2, 1, 0 :: nat]) = [3, 2, 1, 0]"
proof -
  define c where "c = demo_bad0 \<lparr>num_actors := 4, num_updates := 2, minibatch_size := 1\<rparr>"
  have pi: "post_init demo_bad0 = Inr c"
    unfolding c_def by (rule post_init_demo(2))
  have a: "anneal_lr c" and n: "population_size c = 2" and u: "0 < num_updates c"
    and mm: "minibatch_size c * num_minibatches c \<noteq> num_steps c * num_actors c"
    by (simp_all add: c_def demo_bad0_def demo_config0_def)
  obtain rs where ti: "train_loop toy c 0 = Inr (0, rs, 0, None)"
    using train_init_toy_ok [OF a n] by auto
  have 1: "train toy demo_bad0 = Inl AssertionError"
    using batch_size_check [OF pi, where C = toy] mm ti u by blast
  have m: "minibatch_size demo_config * num_minibatches demo_config
      = num_steps demo_config * num_actors demo_config"
    and M: "num_minibatches demo_config = 2"
    by (simp_all add: demo_config_def demo_config0_def)
  have l: "length (concat [[10, 11, 12, 13 :: nat]])
      = num_steps demo_config * num_actors demo_config"
    by (simp add: demo_config_def demo_config0_def)
  have d: "distinct [3, 2, 1, 0 :: nat]" by simp
  have sp: "set [3, 2, 1, 0 :: nat] = {0..<length (concat [[10, 11, 12, 13 :: nat]])}"
    by auto
  have 2: "length (make_minibatches [3, 2, 1, 0] 2 [[10, 11, 12, 13 :: nat]]) = 2
   \<and> make_minibatches [3, 2, 1, 0] 2 [[10, 11, 12, 13 :: nat]]
       = map (map (\<lambda>i. concat [[10, 11, 12, 13]] ! i)) (reshape_minibatches 2 [3, 2, 1, 0])
   \<and> concat (reshape_minibatches 2 [3, 2, 1, 0 :: nat]) = [3, 2, 1, 0]"
    using batch_size_check [OF post_init_demo(1),
        where batch = "[[10, 11, 12, 13 :: nat]]" and perm = "[3, 2, 1, 0]"] m l d sp
    unfolding M by blast
  show ?thesis using 1 2 by blast
qed

subsection \<open>The loop's assignments and the rotation, in general\<close>

lemma population_loop_append:
  "population_loop C pop obs_batch (xs @ ys) st
     = (case population_loop C pop obs_batch xs st of
          Inl e \<Rightarrow> Inl e
        | Inr st' \<Rightarrow> population_loop C pop obs_batch ys st')"
proof (induction xs arbitrary: st)
  case Nil
  then show ?case by simp
next
  case (Cons i rest)
  obtain rng pi' v action log_prob actions_np action_probs_np
    where st: "st = (rng, pi', v, action, log_prob, actions_np, action_probs_np)"
    by (cases st) auto
  show ?case
    unfolding st using Cons.IH
    by (simp add: Let_def split: option.splits prod.splits)
qed

lemma population_loop_last:
  assumes "population_loop C pop obs_batch (xs @ [i]) st
             = Inr (rng', p', v', a', l', anp, apnp)"
  shows "\<exists>member k. pop i = Some member
    \<and> p' = fst (network_apply C member obs_batch)
    \<and> v' = snd (network_apply C member obs_batch)
    \<and> a' = pi_sample C k p'
    \<and> l' = pi_log_prob p' a'"
proof -
  obtain st1 where 1: "population_loop C pop obs_batch xs st = Inr st1"
    and 2: "population_loop C pop obs_batch [i] st1 = Inr (rng', p', v', a', l', anp, apnp)"
    using assms unfolding population_loop_append by (auto split: sum.splits)
  obtain rng pi1 v1 a1 l1 anp1 apnp1
    where st1: "st1 = (rng, pi1, v1, a1, l1, anp1, apnp1)"
    by (cases st1) auto
  show ?thesis
    using 2 unfolding st1
    by (auto simp: Let_def split: option.splits prod.splits)
qed

text \<open>
  X1. Whenever \<^verbatim>\<open>_env_step\<close> succeeds on a non-empty population, the action it passes to
  the environment and records, and the recorded value and log-probability, are those
  of the last population member \<open>population[population_size - 1]\<close>, sampled with a key
  of the loop: the loop's assignments shadow the trainee's.
\<close>

theorem env_step_last_member:
  assumes "env_step C config (ts, es, obs, cnt, rng) = Inr ((ts', es', obs', cnt', rng'), tr)"
    and "0 < population_size config"
  shows "\<exists>member k keys orig dn info.
      population ts (population_size config - 1) = Some member
    \<and> action_t tr = pi_sample C k (fst (network_apply C member (batchify obs)))
    \<and> value_t tr = snd (network_apply C member (batchify obs))
    \<and> log_prob_t tr = pi_log_prob (fst (network_apply C member (batchify obs))) (action_t tr)
    \<and> vmap_env_step C keys es (unbatchify (action_t tr) (num_envs config))
        = (obs', es', orig, dn, info)"
proof -
  let ?N = "population_size config"
  have idxs: "[0..<?N] = [0..<?N - 1] @ [?N - 1]"
    using assms(2) by (metis Suc_diff_1 upt_Suc_append zero_le)
  obtain rng1 rsub1 p0 v0 rng2 p2 v2 a2 l2 anp apnp rsub3 obsv es1 orig dn shaped info
    where loop: "population_loop C (population ts) (batchify obs) [0..<?N]
           (rng1, p0, v0, pi_sample C rsub1 p0, pi_log_prob p0 (pi_sample C rsub1 p0),
            replicate ?N (replicate (num_actors config) 0),
            replicate ?N (replicate (num_actors config) (replicate 6 0)))
         = Inr (rng2, p2, v2, a2, l2, anp, apnp)"
      and env: "vmap_env_step C (random_split_n C rsub3 (num_envs config)) es
           (unbatchify a2 (num_envs config)) = (obsv, es1, orig, dn, shaped, info)"
      and rs: "(ts', es', obs', cnt', rng') = (ts, es1, obsv, cnt, rng')"
      and a: "action_t tr = a2" and v: "value_t tr = v2" and l: "log_prob_t tr = l2"
    by (rule env_step_Inr_elim [OF assms(1)]) simp
  obtain member k where m: "population ts (?N - 1) = Some member"
    "p2 = fst (network_apply C member (batchify obs))"
    "v2 = snd (network_apply C member (batchify obs))"
    "a2 = pi_sample C k p2" "l2 = pi_log_prob p2 a2"
    using population_loop_last [OF loop [unfolded idxs]] by blast
  have env': "vmap_env_step C (random_split_n C rsub3 (num_envs config)) es
      (unbatchify (action_t tr) (num_envs config)) = (obs', es', orig, dn, (shaped, info))"
    using env rs a by simp
  have "population ts (?N - 1) = Some member
    \<and> action_t tr = pi_sample C k (fst (network_apply C member (batchify obs)))
    \<and> value_t tr = snd (network_apply C member (batchify obs))
    \<and> log_prob_t tr = pi_log_prob (fst (network_apply C member (batchify obs))) (action_t tr)"
    using m a v l by simp
  then show ?thesis using env' by blast
qed

theorem env_step_last_member_witness:
  "\<exists>k. action_t (snd (projr (env_step toy demo_config demo_runner_state)))
         = pi_sample toy k (fst (network_apply toy 1 (batchify demo_obs)))"
proof -
  have keys: "{0..<population_size demo_config} \<subseteq> dom (population (fst demo_runner_state))"
    by (auto simp: demo_config_def demo_config0_def demo_runner_state_def demo_train_state_def)
  obtain r where run: "env_step toy demo_config demo_runner_state = Inr r"
    using env_step_ok [OF keys, of toy] by auto
  obtain ts' es' obs' cnt' rng' tr where r: "r = ((ts', es', obs', cnt', rng'), tr)"
    by (cases r) auto
  have run': "env_step toy demo_config (demo_train_state, [], demo_obs, 0, 7)
      = Inr ((ts', es', obs', cnt', rng'), tr)"
    using run r by (simp add: demo_runner_state_def)
  have N: "0 < population_size demo_config"
    by (simp add: demo_config_def demo_config0_def)
  have last: "population demo_train_state (population_size demo_config - 1) = Some 1"
    by (simp add: demo_config_def demo_config0_def demo_train_state_def)
  show ?thesis
    using env_step_last_member [OF run' N] last run r by auto
qed

text \<open>
  X2. When the newly drawn index differs from the previous trainee's, the rotation does
  what C3 says: the new trainee's parameters are the population's entry at the new
  index after the reinsertion, and the old slot holds the trained parameters.
\<close>

theorem rotation_other_index:
  assumes "reinsert_and_checkout idcs old new ts = Inr ts'" and "new \<noteq> old"
  shows "population ts' new = Some (params ts') \<and> population ts' old = Some (params ts)
    \<and> curr_agent_idx ts' = new"
  using assms by (auto simp: reinsert_and_checkout_def Let_def split: option.splits)

theorem rotation_other_index_witness:
  "\<exists>ts'. reinsert_and_checkout [0, 1] 0 1 (demo_train_state \<lparr>params := 7\<rparr>) = Inr ts'
     \<and> population ts' 1 = Some (params ts') \<and> population ts' 0 = Some 7"
proof -
  obtain ts' where r: "reinsert_and_checkout [0, 1] 0 1 (demo_train_state \<lparr>params := 7\<rparr>)
      = Inr ts'"
    by (simp add: reinsert_and_checkout_def demo_train_state_def Let_def)
  have "(1::nat) \<noteq> 0" by simp
  from rotation_other_index [OF r this] r show ?thesis by auto
qed

text \<open>
  X3. In the loop of \<^verbatim>\<open>train\<close>, when an iteration draws the index it already trained,
  the parameters handed to the next iteration are the slot's content from before the
  iteration, and the parameters the update step produced stay in the slot only.
\<close>

theorem repeated_draw_keeps_stale_params:
  assumes "train_iteration C config i (key, (ts, es, obs, cnt, rng), old, m)
             = Inr (key', (ts', es', obs', cnt', rng'), old', m')"
    and "old' = old"
  shows "population ts old = Some (params ts')
    \<and> (\<exists>rs1 m1. update_step C config (ts, es, obs, cnt, rng) = Inr (rs1, m1)
          \<and> population ts' old = Some (params (fst rs1)))"
proof -
  obtain k1 k2 where sp: "random_split C key = (k1, k2)"
    by (cases "random_split C key") auto
  obtain rs1 m1 where us: "update_step C config (ts, es, obs, cnt, rng) = Inr (rs1, m1)"
    using assms(1) by (auto simp: train_iteration_def Let_def sp split: sum.splits)
  obtain ts1 rest1 where rs1: "rs1 = (ts1, rest1)" by (cases rs1) auto
  have p1: "population ts1 = population ts"
    using update_step_Inr [OF us] rs1 by simp
  let ?idcs = "[0..<population_size config]"
  obtain new where ch: "jax_random_choice C k2 ?idcs = Inr new"
    using assms(1) by (auto simp: train_iteration_def Let_def sp us split: sum.splits)
  obtain ts2 where rc: "reinsert_and_checkout ?idcs old new ts1 = Inr ts2"
    using assms(1) by (auto simp: train_iteration_def Let_def sp us ch rs1 split: sum.splits)
  have res: "ts' = ts2" "old' = new"
    using assms(1)
    by (auto simp: train_iteration_def Let_def sp us ch rs1 rc split: if_splits)
  note r = reinsert_and_checkout_Inr [OF rc]
  have "population ts1 new = Some (params ts2)" using r by auto
  then have a: "population ts old = Some (params ts')"
    using p1 res assms(2) by simp
  have b: "population ts' old = Some (params (fst rs1))"
    using r res rs1 by simp
  show ?thesis using a b us by blast
qed

lemma draw_trace_toy_3: "draw_trace toy demo_config (Suc 2) = Inr (7, 0)"
proof -
  have "draw_trace toy demo_config (Suc 2)
      = (case draw_trace toy demo_config 2 of
           Inl e \<Rightarrow> Inl e
         | Inr (key, idx) \<Rightarrow> draw_next toy demo_config key)"
    by (rule draw_trace.simps(2))
  also have "\<dots> = draw_next toy demo_config 3"
    by (simp only: draw_trace_toy sum.case prod.case)
  also have "\<dots> = Inr (7, 0)"
    by (simp add: toy_draw_simps)
  finally show ?thesis .
qed

theorem repeated_draw_keeps_stale_params_witness:
  "\<exists>ts es obs cnt rng m ts' es' obs' cnt' rng' m'.
      train_loop toy demo_config 2 = Inr (3, (ts, es, obs, cnt, rng), 0, m)
    \<and> train_loop toy demo_config (Suc 2) = Inr (7, (ts', es', obs', cnt', rng'), 0, m')
    \<and> population ts 0 = Some (params ts')"
proof -
  have "(case train_loop toy demo_config 2 of
      Inl e \<Rightarrow> Inl e
    | Inr (key, runner_state, old, m) \<Rightarrow> Inr (key, old)) = Inr (3, 0)"
    using train_loop_draw [of toy demo_config 2] draw_trace_toy by simp
  then obtain ts es obs cnt rng m
    where run2: "train_loop toy demo_config 2 = Inr (3, (ts, es, obs, cnt, rng), 0, m)"
    by (auto split: sum.splits prod.splits)
  have "(case train_loop toy demo_config (Suc 2) of
      Inl e \<Rightarrow> Inl e
    | Inr (key, runner_state, old, m) \<Rightarrow> Inr (key, old)) = Inr (7, 0)"
    using train_loop_draw [of toy demo_config "Suc 2"] draw_trace_toy_3 by simp
  then obtain ts' es' obs' cnt' rng' m'
    where run3: "train_loop toy demo_config (Suc 2)
        = Inr (7, (ts', es', obs', cnt', rng'), 0, m')"
    by (auto split: sum.splits prod.splits)
  have "train_loop toy demo_config (Suc 2)
      = (case train_loop toy demo_config 2 of
           Inl e \<Rightarrow> Inl e
         | Inr vars \<Rightarrow> train_iteration toy demo_config 2 vars)"
    by (rule train_loop.simps(2))
  then have it: "train_iteration toy demo_config 2 (3, (ts, es, obs, cnt, rng), 0, m)
      = Inr (7, (ts', es', obs', cnt', rng'), 0, m')"
    unfolding run2 run3 by (simp only: sum.case)
  show ?thesis
    using repeated_draw_keeps_stale_params [OF it refl] run2 run3 by blast
qed

end
